theory Spec2Isabelle
  imports Complex_Main "HOL-Library.Sublist" "HOL-Library.AList"
begin

section \<open>Python string primitives used by the scripts\<close>

text \<open>
  Strings are lists of 8-bit characters; the scripts only test ASCII text (column
  names, gene types, file stems), so \<open>str.lower\<close> and \<open>str.strip\<close> are modelled on
  ASCII: \<open>lower\<close> maps \<open>A\<close>..\<open>Z\<close> to \<open>a\<close>..\<open>z\<close> and leaves every other character alone,
  \<open>strip\<close> removes the ASCII white space characters at both ends.
\<close>

definition ascii_uppercase :: string where
  "ascii_uppercase = ''ABCDEFGHIJKLMNOPQRSTUVWXYZ''"

definition ascii_lowercase :: string where
  "ascii_lowercase = ''abcdefghijklmnopqrstuvwxyz''"

definition lower_char :: "char \<Rightarrow> char" where
  "lower_char c =
     (case map_of (zip ascii_uppercase ascii_lowercase) c of
        Some l \<Rightarrow> l
      | None \<Rightarrow> c)"

definition lower :: "string \<Rightarrow> string" where
  "lower s = map lower_char s"

text \<open>\<open>str.isspace\<close> on ASCII: tab, line feed, vertical tab, form feed, carriage
  return, the four separators 0x1C..0x1F, and the blank.\<close>

definition whitespace :: string where
  "whitespace = [CHR 0x09, CHR 0x0A, CHR 0x0B, CHR 0x0C, CHR 0x0D,
                 CHR 0x1C, CHR 0x1D, CHR 0x1E, CHR 0x1F, CHR '' '']"

definition is_space :: "char \<Rightarrow> bool" where
  "is_space c = (c \<in> set whitespace)"

definition strip :: "string \<Rightarrow> string" where
  "strip s = rev (dropWhile is_space (rev (dropWhile is_space s)))"

text \<open>\<open>s.startswith(p)\<close>.\<close>

fun startswith :: "string \<Rightarrow> string \<Rightarrow> bool" where
  "startswith s [] = True"
| "startswith [] (p # ps) = False"
| "startswith (c # cs) (p # ps) = (c = p \<and> startswith cs ps)"

text \<open>\<open>s.endswith(p)\<close>.\<close>

definition endswith :: "string \<Rightarrow> string \<Rightarrow> bool" where
  "endswith s p = startswith (rev s) (rev p)"

text \<open>\<open>sub in s\<close>: \<open>sub\<close> occurs in \<open>s\<close> as a contiguous run.\<close>

fun str_in :: "string \<Rightarrow> string \<Rightarrow> bool" where
  "str_in sub [] = (sub = [])"
| "str_in sub (c # cs) = (startswith (c # cs) sub \<or> str_in sub cs)"

text \<open>\<open>s.split(sep)\<close> for a one-character separator: the pieces between the
  separators, never an empty list (\<open>''.split(':')\<close> is \<open>['']\<close>).\<close>

fun split :: "char \<Rightarrow> string \<Rightarrow> string list" where
  "split sep [] = [[]]"
| "split sep (c # cs) =
     (if c = sep then [] # split sep cs
      else (case split sep cs of
              [] \<Rightarrow> [[c]]
            | p # ps \<Rightarrow> (c # p) # ps))"

text \<open>\<open>str(n)\<close> for a non-negative integer: its decimal digits.\<close>

definition digit_char :: "nat \<Rightarrow> char" where
  "digit_char d = ''0123456789'' ! (d mod 10)"

function str_nat :: "nat \<Rightarrow> string" where
  "str_nat n = (if n < 10 then [digit_char n] else str_nat (n div 10) @ [digit_char n])"
  by pat_completeness auto
termination
  by (relation "measure (\<lambda>n. n)") auto

section \<open>Region variant: \<open>column_chart_plotting.py\<close>, \<open>column_chart_plotting_style.py\<close>\<close>

text \<open>Both files define \<open>parse_region\<close>, \<open>process_sites_file\<close> and the counting part
  of \<open>main\<close> with the same statements; one model serves both.\<close>

subsection \<open>\<open>parse_region\<close>\<close>

text \<open>The arguments are the texts \<open>str(gene_type)\<close> and \<open>str(gene_name)\<close>.\<close>

definition parse_region :: "string \<Rightarrow> string \<Rightarrow> string" where
  "parse_region gene_type gene_name =
     (let gene_type = lower gene_type;
          gene_name = lower gene_name
      in if str_in ''upstream'' gene_name then ''5' UTR''
         else if str_in ''downstream'' gene_name then ''3' UTR''
         else if gene_type \<in> set [''trna'', ''rrna'', ''ncrna'', ''non-coding'', ''pseudogene'']
              then ''ncRNA''
         else if gene_type = ''protein_coding'' then ''CDS''
         else if gene_type = ''intergenic'' then ''Intergenic''
         else ''Other'')"

subsection \<open>Data read by pandas\<close>

text \<open>
  A cell of a data frame is its text (what \<open>str\<close> and an f-string give for the value)
  or is missing; \<open>pd.notna\<close> is \<open>True\<close> exactly on the cells that are not missing. A
  data frame is its header and its rows in file order, and \<open>row.name\<close> is the position
  of the row (the default \<open>RangeIndex\<close>). A row shorter than the header is missing its
  last cells, as pandas fills them.
\<close>

type_synonym cell = "string option"

record dataframe =
  columns :: "string list"
  rows :: "cell list list"

datatype error =
    KeyError string
  | IndexError
  | FileNotFoundError string
  | NotADirectoryError string
  | NoFilesFound string
  | ReadFailed string
  | MissingColumns string "string list"
  | NoGroupMatch string string
  | NoValidFiles string

text \<open>A Python \<open>dict\<close> with text keys and values, in insertion order:
  \<open>d[k] = v\<close> is \<open>AList.update\<close> (an existing key keeps its place).\<close>

type_synonym dict = "(string \<times> string) list"

definition notna :: "cell \<Rightarrow> bool" where
  "notna c = (c \<noteq> None)"

text \<open>The text of a cell in an f-string; a missing cell prints as \<open>nan\<close>.\<close>

definition format_cell :: "cell \<Rightarrow> string" where
  "format_cell c = (case c of None \<Rightarrow> ''nan'' | Some t \<Rightarrow> t)"

text \<open>\<open>row[col]\<close>: \<open>KeyError\<close> when the header has no such column.\<close>

definition getitem :: "dataframe \<Rightarrow> cell list \<Rightarrow> string \<Rightarrow> error + cell" where
  "getitem df row col =
     (if col \<in> set (columns df)
      then Inr (case map_of (zip (columns df) row) col of None \<Rightarrow> None | Some c \<Rightarrow> c)
      else Inl (KeyError col))"

subsection \<open>\<open>process_sites_file\<close>\<close>

definition gene_type_cols :: "dataframe \<Rightarrow> string list" where
  "gene_type_cols df = [col \<leftarrow> columns df. endswith col ''_Gene_Type'']"

definition gene_name_cols :: "dataframe \<Rightarrow> string list" where
  "gene_name_cols df = [col \<leftarrow> columns df. endswith col ''_Gene_Name'']"

text \<open>\<open>'RNA_ID' if 'RNA_ID' in df.columns else df.columns[2]\<close>.\<close>

definition rna_id_col :: "dataframe \<Rightarrow> error + string" where
  "rna_id_col df =
     (if ''RNA_ID'' \<in> set (columns df) then Inr ''RNA_ID''
      else if 2 < length (columns df) then Inr (columns df ! 2)
      else Inl IndexError)"

text \<open>\<open>[row[col] for col in cols if pd.notna(row[col])]\<close>; the columns come from the
  header, so no lookup fails.\<close>

definition notna_values :: "dataframe \<Rightarrow> cell list \<Rightarrow> string list \<Rightarrow> string list" where
  "notna_values df row cols =
     concat (map (\<lambda>col. case getitem df row col of
                           Inr (Some t) \<Rightarrow> [t]
                         | _ \<Rightarrow> []) cols)"

text \<open>The local variables of the loop body, for the row at position \<open>i\<close>:
  \<open>site_id = f"{row['Chr']}:{row['Sites']}"\<close>,
  \<open>rna_id = row[rna_id_col] if pd.notna(row[rna_id_col]) else
  site_id.split(':')[0] + '_RNA' + str(row.name)\<close>, \<open>gene_types\<close> and \<open>gene_names\<close>.
  \<open>split\<close> never returns an empty list (\<open>split_nonempty\<close> below), so \<open>hd\<close> is its
  first piece.\<close>

definition site_id :: "dataframe \<Rightarrow> cell list \<Rightarrow> error + string" where
  "site_id df row =
     (case getitem df row ''Chr'' of
        Inl e \<Rightarrow> Inl e
      | Inr chr \<Rightarrow>
     (case getitem df row ''Sites'' of
        Inl e \<Rightarrow> Inl e
      | Inr sites \<Rightarrow> Inr (format_cell chr @ '':'' @ format_cell sites)))"

definition rna_id :: "dataframe \<Rightarrow> string \<Rightarrow> nat \<Rightarrow> cell list \<Rightarrow> string \<Rightarrow> error + string" where
  "rna_id df rna_col i row sid =
     (case getitem df row rna_col of
        Inl e \<Rightarrow> Inl e
      | Inr (Some t) \<Rightarrow> Inr t
      | Inr None \<Rightarrow> Inr (hd (split CHR '':'' sid) @ ''_RNA'' @ str_nat i))"

definition gene_types :: "dataframe \<Rightarrow> cell list \<Rightarrow> string list" where
  "gene_types df row = notna_values df row (gene_type_cols df)"

definition gene_names :: "dataframe \<Rightarrow> cell list \<Rightarrow> string list" where
  "gene_names df row = notna_values df row (gene_name_cols df)"

text \<open>The body of the loop over \<open>df.iterrows()\<close>; the state is the pair
  \<open>(site_regions, site_to_rna)\<close>.\<close>

definition process_row ::
  "dataframe \<Rightarrow> string \<Rightarrow> nat \<Rightarrow> cell list \<Rightarrow> dict \<times> dict \<Rightarrow> error + dict \<times> dict" where
  "process_row df rna_col i row acc =
     (case site_id df row of
        Inl e \<Rightarrow> Inl e
      | Inr sid \<Rightarrow>
     (case rna_id df rna_col i row sid of
        Inl e \<Rightarrow> Inl e
      | Inr rid \<Rightarrow>
        (case (gene_types df row, gene_names df row) of
           (gt # _, gn # _) \<Rightarrow>
             Inr (AList.update sid (parse_region gt gn) (fst acc),
                  AList.update sid rid (snd acc))
         | _ \<Rightarrow> Inr acc)))"

fun process_rows ::
  "dataframe \<Rightarrow> string \<Rightarrow> (nat \<times> cell list) list \<Rightarrow> dict \<times> dict \<Rightarrow> error + dict \<times> dict" where
  "process_rows df rna_col [] acc = Inr acc"
| "process_rows df rna_col ((i, row) # rest) acc =
     (case process_row df rna_col i row acc of
        Inl e \<Rightarrow> Inl e
      | Inr acc' \<Rightarrow> process_rows df rna_col rest acc')"

definition process_sites_file :: "dataframe \<Rightarrow> error + dict \<times> dict" where
  "process_sites_file df =
     (case rna_id_col df of
        Inl e \<Rightarrow> Inl e
      | Inr rna_col \<Rightarrow> process_rows df rna_col (enumerate 0 (rows df)) ([], []))"

subsection \<open>\<open>main\<close>: transcripts shared by the two conditions\<close>

definition region_order :: "string list" where
  "region_order = [''ncRNA'', ''3' UTR'', ''Intergenic'', ''5' UTR'', ''CDS'']"

text \<open>\<open>set(sites_rna.values())\<close>.\<close>

definition rna_values :: "dict \<Rightarrow> string set" where
  "rna_values sites_rna = set (map snd sites_rna)"

definition shared_rna :: "dict \<Rightarrow> dict \<Rightarrow> string set" where
  "shared_rna sites_37_rna sites_45_rna = rna_values sites_37_rna \<inter> rna_values sites_45_rna"

definition unique_rna_37 :: "dict \<Rightarrow> dict \<Rightarrow> string set" where
  "unique_rna_37 sites_37_rna sites_45_rna = rna_values sites_37_rna - rna_values sites_45_rna"

definition unique_rna_45 :: "dict \<Rightarrow> dict \<Rightarrow> string set" where
  "unique_rna_45 sites_37_rna sites_45_rna = rna_values sites_45_rna - rna_values sites_37_rna"

subsection \<open>\<open>main\<close>: shared modification sites\<close>

text \<open>\<open>sites_rna[s] in rnas\<close>, for a key \<open>s\<close> of \<open>sites_rna\<close>. (\<open>main\<close> below raises
  \<open>KeyError\<close> before any count is made when a key is absent.)\<close>

definition rna_in :: "dict \<Rightarrow> string \<Rightarrow> string set \<Rightarrow> bool" where
  "rna_in sites_rna s rnas = (case map_of sites_rna s of None \<Rightarrow> False | Some r \<Rightarrow> r \<in> rnas)"

text \<open>\<open>{s for s in sites_regions if sites_rna[s] in shared_rna}\<close>: the members of the
  set, listed once each.\<close>

definition shared_site :: "dict \<Rightarrow> dict \<Rightarrow> string set \<Rightarrow> string list" where
  "shared_site sites_regions sites_rna rnas = [s \<leftarrow> map fst sites_regions. rna_in sites_rna s rnas]"

text \<open>\<open>s.split(':')[-1]\<close>.\<close>

definition position :: "string \<Rightarrow> string" where
  "position s = last (split CHR '':'' s)"

text \<open>The inner loop \<open>for s45 in shared_site_45\<close> for one \<open>s37\<close>, and the outer loop
  \<open>for s37 in shared_site_37\<close>; the state is \<open>shared_mod_sites\<close>.\<close>

fun match_s45 :: "dict \<Rightarrow> dict \<Rightarrow> string \<Rightarrow> string list \<Rightarrow> string set \<Rightarrow> string set" where
  "match_s45 sites_37_regions sites_45_regions s37 [] shared_mod = shared_mod"
| "match_s45 sites_37_regions sites_45_regions s37 (s45 # rest) shared_mod =
     match_s45 sites_37_regions sites_45_regions s37 rest
       (if position s45 = position s37 \<and> map_of sites_37_regions s37 = map_of sites_45_regions s45
        then insert s45 (insert s37 shared_mod)
        else shared_mod)"

fun match_s37 :: "dict \<Rightarrow> dict \<Rightarrow> string list \<Rightarrow> string list \<Rightarrow> string set \<Rightarrow> string set" where
  "match_s37 sites_37_regions sites_45_regions [] shared_site_45 shared_mod = shared_mod"
| "match_s37 sites_37_regions sites_45_regions (s37 # rest) shared_site_45 shared_mod =
     match_s37 sites_37_regions sites_45_regions rest shared_site_45
       (match_s45 sites_37_regions sites_45_regions s37 shared_site_45 shared_mod)"

definition shared_mod_sites :: "dict \<Rightarrow> dict \<Rightarrow> dict \<Rightarrow> dict \<Rightarrow> string set" where
  "shared_mod_sites sites_37_regions sites_37_rna sites_45_regions sites_45_rna =
     (let shared = shared_rna sites_37_rna sites_45_rna;
          shared_site_37 = shared_site sites_37_regions sites_37_rna shared;
          shared_site_45 = shared_site sites_45_regions sites_45_rna shared
      in match_s37 sites_37_regions sites_45_regions shared_site_37 shared_site_45 {})"

subsection \<open>\<open>main\<close>: the five layers, per region\<close>




record layers =
  mod_unique37 :: "nat list"
  unique_37 :: "nat list"
  shared :: "nat list"
  unique_45 :: "nat list"
  mod_unique45 :: "nat list"





subsection \<open>Notions used to state the properties of the region variant\<close>

text \<open>Every cell of the row in the given columns is missing.\<close>

definition all_null :: "dataframe \<Rightarrow> cell list \<Rightarrow> string list \<Rightarrow> bool" where
  "all_null df row cols = (\<forall>col \<in> set cols. getitem df row col = Inr None)"

text \<open>A row is recorded when neither its gene-type columns nor its gene-name columns
  are all missing.\<close>

definition recorded :: "dataframe \<Rightarrow> cell list \<Rightarrow> bool" where
  "recorded df row =
     (\<not> all_null df row (gene_type_cols df) \<and> \<not> all_null df row (gene_name_cols df))"

definition region_of_row :: "dataframe \<Rightarrow> cell list \<Rightarrow> string" where
  "region_of_row df row = parse_region (hd (gene_types df row)) (hd (gene_names df row))"

text \<open>The last recorded row of the file whose site identifier is \<open>k\<close>, with its
  position.\<close>

definition last_row_for :: "dataframe \<Rightarrow> string \<Rightarrow> (nat \<times> cell list) option" where
  "last_row_for df k =
     find (\<lambda>(i, row). recorded df row \<and> site_id df row = Inr k) (rev (enumerate 0 (rows df)))"








subsection \<open>Example files of the region variant\<close>

definition site_columns :: "string list" where
  "site_columns = [''Chr'', ''Sites'', ''RNA_ID'', ''Ann_Gene_Type'', ''Ann_Gene_Name'']"





text \<open>A file that names the site \<open>chr1:20\<close> twice, around a row without gene type.\<close>

definition repeated_site :: dataframe where
  "repeated_site = \<lparr>columns = site_columns,
     rows = [[Some ''chr1'', Some ''20'', Some ''T1'', Some ''tRNA'', Some ''geneA''],
             [Some ''chr1'', Some ''30'', Some ''T2'', None, Some ''geneB''],
             [Some ''chr1'', Some ''20'', Some ''T9'', Some ''Protein_Coding'', Some ''geneC'']]\<rparr>"

text \<open>Two conditions that share the transcript \<open>T1\<close> only: position 20 in both with
  the same region, positions 10 and 30 in one condition each, position 40 on \<open>T2\<close> and
  on \<open>T3\<close>, position 50 with two different regions.\<close>

definition matching_A :: dataframe where
  "matching_A = \<lparr>columns = site_columns,
     rows = [[Some ''chr1'', Some ''10'', Some ''T1'', Some ''protein_coding'', Some ''geneA''],
             [Some ''chr1'', Some ''20'', Some ''T1'', Some ''protein_coding'', Some ''geneA''],
             [Some ''chr1'', Some ''40'', Some ''T2'', Some ''protein_coding'', Some ''geneB''],
             [Some ''chr1'', Some ''50'', Some ''T1'', Some ''protein_coding'', Some ''geneA'']]\<rparr>"

definition matching_B :: dataframe where
  "matching_B = \<lparr>columns = site_columns,
     rows = [[Some ''chr1'', Some ''20'', Some ''T1'', Some ''protein_coding'', Some ''geneA''],
             [Some ''chr1'', Some ''30'', Some ''T1'', Some ''protein_coding'', Some ''geneA''],
             [Some ''chr1'', Some ''40'', Some ''T3'', Some ''protein_coding'', Some ''geneC''],
             [Some ''chr1'', Some ''50'', Some ''T1'', Some ''tRNA'', Some ''geneA'']]\<rparr>"

section \<open>Depletion variant: \<open>group_proportion_style.py\<close>\<close>

subsection \<open>Configuration\<close>

definition file_suffix :: string where
  "file_suffix = ''.csv''"

definition INCLUDE_UNKNOWN_TYPES :: bool where
  "INCLUDE_UNKNOWN_TYPES = False"

definition column_mapping :: dict where
  "column_mapping = [(''Sites'', ''site''), (''Gene_Type'', ''gene_type'')]"

definition gene_type_to_rna :: dict where
  "gene_type_to_rna =
     [(''protein_coding'', ''mRNA''),
      (''trna'', ''ncRNA''), (''trna_pseudogene'', ''ncRNA''),
      (''rrna_gene'', ''rRNA''), (''rrna_pseudogene'', ''ncRNA''),
      (''mirna'', ''ncRNA''), (''mirna_pseudogene'', ''ncRNA''),
      (''snrna'', ''ncRNA''), (''snrna_pseudogene'', ''ncRNA''),
      (''snorna'', ''ncRNA''), (''snorna_pseudogene'', ''ncRNA''),
      (''lncrna'', ''ncRNA''), (''lincrna'', ''ncRNA''), (''lncrna_pseudogene'', ''ncRNA''),
      (''pirna'', ''ncRNA''), (''scrna'', ''ncRNA''), (''circrna'', ''ncRNA''),
      (''sirna'', ''ncRNA''), (''vaultrna'', ''ncRNA''), (''yrna'', ''ncRNA''),
      (''scarna'', ''ncRNA''), (''7skrna'', ''ncRNA''), (''rnase_p_rna'', ''ncRNA''),
      (''rnase_mrp_rna'', ''ncRNA'')]"

definition grouping_rules :: "(string \<times> string list \<times> string) list" where
  "grouping_rules =
     [(''removed'', [''m6A_03''], ''OD600=0.3(-rRNA)''),
      (''removed'', [''m6A_1''], ''OD600=1(-rRNA)''),
      (''total'', [''m6A_1'', ''m6A_2'', ''m6A_3'', ''m6A_4''], ''OD600=0.3''),
      (''total'', [''m6A_5'', ''m6A_6'', ''m6A_7'', ''m6A_8''], ''OD600=1'')]"

subsection \<open>\<open>convert_gene_to_rna\<close>\<close>

text \<open>The argument is a cell of the \<open>Gene_Type\<close> column, read as text: a string, or
  missing (\<open>pd.isna\<close>). The second argument is the parameter \<open>default\<close>, which \<open>load_samples\<close>
  leaves at \<open>"unknown"\<close>.\<close>

definition convert_gene_to_rna :: "cell \<Rightarrow> string \<Rightarrow> string" where
  "convert_gene_to_rna gene_type default_value =
     (case gene_type of
        None \<Rightarrow> default_value
      | Some t \<Rightarrow>
          if strip t = [] then default_value
          else (let lower_gene_type = lower (strip t)
                in case map_of gene_type_to_rna lower_gene_type of
                     None \<Rightarrow> default_value
                   | Some rna \<Rightarrow> rna))"

subsection \<open>\<open>get_group_name\<close>\<close>

text \<open>The loop over the rules, \<open>any(file_name.startswith(prefix) for prefix in
  prefixes)\<close> inside it, and the \<open>ValueError\<close> after it.\<close>

fun first_rule :: "(string \<times> string list \<times> string) list \<Rightarrow> string \<Rightarrow> string \<Rightarrow> error + string" where
  "first_rule [] file_name folder_type = Inl (NoGroupMatch file_name folder_type)"
| "first_rule ((rule_folder, rule_prefixes, target_group) # rules) file_name folder_type =
     (if rule_folder = folder_type
      then (if list_ex (startswith file_name) rule_prefixes then Inr target_group
            else first_rule rules file_name folder_type)
      else first_rule rules file_name folder_type)"

definition get_group_name :: "string \<Rightarrow> string \<Rightarrow> error + string" where
  "get_group_name file_name folder_type = first_rule grouping_rules file_name folder_type"

subsection \<open>Folders and files\<close>

text \<open>
  A file of a folder is its name and what \<open>pd.read_csv\<close> makes of it: a data frame, or
  nothing when reading raises. A folder is its path, whether it exists and is a
  directory, and its files in the order \<open>glob\<close> lists them.
\<close>

record sample_file =
  fname :: string
  content :: "dataframe option"

record folder =
  folder_path :: string
  folder_exists :: bool
  folder_is_dir :: bool
  folder_files :: "sample_file list"

text \<open>\<open>folder.glob(f"*{file_suffix}")\<close>.\<close>

definition glob_suffix :: "folder \<Rightarrow> string \<Rightarrow> sample_file list" where
  "glob_suffix dir ext = [f \<leftarrow> folder_files dir. endswith (fname f) ext]"

text \<open>\<open>Path.stem\<close>: the name up to its last dot, when that dot is neither the first
  nor the last character of the name; the whole name otherwise.\<close>

definition stem :: "string \<Rightarrow> string" where
  "stem n =
     (let pieces = split CHR ''.'' n;
          i = length n - length (last pieces) - 1
      in if 2 \<le> length pieces \<and> 0 < i \<and> last pieces \<noteq> [] then take i n else n)"

text \<open>A cell of a column that the header is known to have.\<close>

definition cell_at :: "dataframe \<Rightarrow> cell list \<Rightarrow> string \<Rightarrow> cell" where
  "cell_at df row col = (case getitem df row col of Inl e \<Rightarrow> None | Inr c \<Rightarrow> c)"

text \<open>\<open>[col for col in column_mapping.keys() if col not in df.columns]\<close>.\<close>

definition missing_cols :: "dict \<Rightarrow> dataframe \<Rightarrow> string list" where
  "missing_cols mapping df = [col \<leftarrow> map fst mapping. col \<notin> set (columns df)]"

subsection \<open>\<open>load_samples\<close>\<close>

text \<open>A row of the table that \<open>load_samples\<close> returns: the two mapped columns, the
  converted \<open>rna_type\<close> and the \<open>group\<close>. Other columns of the file play no part in
  the counts.\<close>

record sample_row =
  row_site :: cell
  row_gene_type :: cell
  row_rna_type :: string
  row_group :: string

definition known_types :: "string set" where
  "known_types = {''mRNA'', ''ncRNA'', ''rRNA''}"

text \<open>The renamed data frame with the column \<open>converted_rna_type\<close>, then the filter on
  it, for a file assigned to \<open>target_group\<close>. (With \<open>INCLUDE_UNKNOWN_TYPES\<close> set the rows
  stay and the script only prints the unknown types.)\<close>

definition convert_rows :: "dataframe \<Rightarrow> string \<Rightarrow> sample_row list" where
  "convert_rows df target_group =
     (let df_renamed =
            map (\<lambda>row. \<lparr>row_site = cell_at df row ''Sites'',
                         row_gene_type = cell_at df row ''Gene_Type'',
                         row_rna_type = convert_gene_to_rna (cell_at df row ''Gene_Type'') ''unknown'',
                         row_group = target_group\<rparr>) (rows df);
          unknown_types = set (map row_rna_type df_renamed) - known_types
      in if unknown_types \<noteq> {} \<and> \<not> INCLUDE_UNKNOWN_TYPES
         then [r \<leftarrow> df_renamed. row_rna_type r \<in> known_types]
         else df_renamed)"

text \<open>\<open>group_data[target_group].append(df_renamed)\<close>, with a new list for a new group.\<close>

definition append_group ::
  "string \<Rightarrow> sample_row list \<Rightarrow> (string \<times> sample_row list list) list \<Rightarrow>
   (string \<times> sample_row list list) list" where
  "append_group target_group df group_data =
     (case map_of group_data target_group of
        None \<Rightarrow> group_data @ [(target_group, [df])]
      | Some dfs \<Rightarrow> AList.update target_group (dfs @ [df]) group_data)"

text \<open>The body of the loop over the files. The state is \<open>group_data\<close> and the warnings
  printed so far; the \<open>ValueError\<close> of \<open>get_group_name\<close> is caught and printed, every
  other error leaves the function.\<close>

definition load_file ::
  "string \<Rightarrow> sample_file \<Rightarrow> (string \<times> sample_row list list) list \<times> error list \<Rightarrow>
   error + (string \<times> sample_row list list) list \<times> error list" where
  "load_file folder_type file st =
     (case get_group_name (stem (fname file)) folder_type of
        Inl e \<Rightarrow> Inr (fst st, snd st @ [e])
      | Inr target_group \<Rightarrow>
     (case content file of
        None \<Rightarrow> Inl (ReadFailed (fname file))
      | Some df \<Rightarrow>
          if missing_cols column_mapping df \<noteq> []
          then Inl (MissingColumns (fname file) (missing_cols column_mapping df))
          else Inr (append_group target_group (convert_rows df target_group) (fst st), snd st)))"

fun load_files ::
  "string \<Rightarrow> sample_file list \<Rightarrow> (string \<times> sample_row list list) list \<times> error list \<Rightarrow>
   error + (string \<times> sample_row list list) list \<times> error list" where
  "load_files folder_type [] st = Inr st"
| "load_files folder_type (file # files) st =
     (case load_file folder_type file st of
        Inl e \<Rightarrow> Inl e
      | Inr st' \<Rightarrow> load_files folder_type files st')"

text \<open>\<open>load_samples\<close> returns the final table; the second component is what it printed
  as warnings.\<close>

definition load_samples :: "folder \<Rightarrow> string \<Rightarrow> error + sample_row list \<times> error list" where
  "load_samples dir folder_type =
     (if \<not> folder_exists dir then Inl (FileNotFoundError (folder_path dir))
      else if \<not> folder_is_dir dir then Inl (NotADirectoryError (folder_path dir))
      else (let files = glob_suffix dir file_suffix
            in if files = [] then Inl (NoFilesFound (folder_path dir))
               else (case load_files folder_type files ([], []) of
                       Inl e \<Rightarrow> Inl e
                     | Inr (group_data, warnings) \<Rightarrow>
                         (let all_samples = map (\<lambda>(group_name, dfs). concat dfs) group_data
                          in if all_samples = [] then Inl (NoValidFiles (folder_path dir))
                             else Inr (concat all_samples, warnings)))))"

subsection \<open>\<open>main\<close> of \<open>group_proportion_style.py\<close>, up to \<open>all_data\<close>\<close>


section \<open>Depletion variant: \<open>FDR_proportion_plotting.py\<close>\<close>

text \<open>This script has its own table, \<open>column_mapping\<close> and \<open>load_samples\<close>; their names
  carry the suffix \<open>FDR\<close> here.\<close>

definition INCLUDE_UNKNOWN_TYPES_FDR :: bool where
  "INCLUDE_UNKNOWN_TYPES_FDR = False"

definition column_mapping_FDR :: dict where
  "column_mapping_FDR = [(''Sites'', ''site''), (''Gene_Type'', ''rna_type'')]"

definition gene_type_to_rna_FDR :: dict where
  "gene_type_to_rna_FDR =
     [(''protein_coding'', ''mRNA''), (''intergenic'', ''ncRNA''), (''pseudogene'', ''unaligned''),
      (''tRNA'', ''ncRNA''), (''rRNA_gene'', ''rRNA'')]"

text \<open>\<open>lambda x: gene_type_to_rna.get(x, x)\<close>.\<close>

definition rna_type_FDR :: "string \<Rightarrow> string" where
  "rna_type_FDR x = (case map_of gene_type_to_rna_FDR x of None \<Rightarrow> x | Some rna \<Rightarrow> rna)"

record fdr_row =
  fdr_site :: cell
  fdr_rna_type :: cell
  fdr_sample :: string
  fdr_group :: string

text \<open>The renamed data frame, the filter on the labels that are keys of the table, and
  the conversion, for one file of the folder of \<open>group_name\<close>.\<close>

definition convert_rows_FDR :: "dataframe \<Rightarrow> string \<Rightarrow> string \<Rightarrow> fdr_row list" where
  "convert_rows_FDR df group_name sample_name =
     (let keys = Some ` set (map fst gene_type_to_rna_FDR);
          df_renamed =
            map (\<lambda>row. \<lparr>fdr_site = cell_at df row ''Sites'',
                         fdr_rna_type = cell_at df row ''Gene_Type'',
                         fdr_sample = group_name @ ''_'' @ sample_name,
                         fdr_group = group_name\<rparr>) (rows df);
          unknown_types = set (map fdr_rna_type df_renamed) - keys;
          df_renamed = (if unknown_types \<noteq> {} \<and> \<not> INCLUDE_UNKNOWN_TYPES_FDR
                        then [r \<leftarrow> df_renamed. fdr_rna_type r \<in> keys]
                        else df_renamed)
      in map (\<lambda>r. r\<lparr>fdr_rna_type := map_option rna_type_FDR (fdr_rna_type r)\<rparr>) df_renamed)"

definition load_file_FDR :: "string \<Rightarrow> sample_file \<Rightarrow> fdr_row list list \<Rightarrow> error + fdr_row list list" where
  "load_file_FDR group_name file all_samples =
     (case content file of
        None \<Rightarrow> Inl (ReadFailed (fname file))
      | Some df \<Rightarrow>
          if missing_cols column_mapping_FDR df \<noteq> []
          then Inl (MissingColumns (fname file) (missing_cols column_mapping_FDR df))
          else Inr (all_samples @ [convert_rows_FDR df group_name (stem (fname file))]))"

fun load_files_FDR :: "string \<Rightarrow> sample_file list \<Rightarrow> fdr_row list list \<Rightarrow> error + fdr_row list list" where
  "load_files_FDR group_name [] all_samples = Inr all_samples"
| "load_files_FDR group_name (file # files) all_samples =
     (case load_file_FDR group_name file all_samples of
        Inl e \<Rightarrow> Inl e
      | Inr all_samples' \<Rightarrow> load_files_FDR group_name files all_samples')"

definition load_samples_FDR :: "folder \<Rightarrow> string \<Rightarrow> error + fdr_row list" where
  "load_samples_FDR dir group_name =
     (if \<not> folder_exists dir then Inl (FileNotFoundError (folder_path dir))
      else if \<not> folder_is_dir dir then Inl (NotADirectoryError (folder_path dir))
      else (let files = glob_suffix dir file_suffix
            in if files = [] then Inl (NoFilesFound (folder_path dir))
               else (case load_files_FDR group_name files [] of
                       Inl e \<Rightarrow> Inl e
                     | Inr all_samples \<Rightarrow> Inr (concat all_samples))))"

section \<open>Notions used to state the properties of the depletion variant\<close>

text \<open>A rule applies to a file stem under a folder role when its role is that role and
  one of its prefixes is a prefix of the stem.\<close>

definition rule_matches :: "string \<times> string list \<times> string \<Rightarrow> string \<Rightarrow> string \<Rightarrow> bool" where
  "rule_matches rule file_stem folder_type =
     (fst rule = folder_type \<and> list_ex (\<lambda>p. prefix p file_stem) (fst (snd rule)))"

text \<open>A file of a folder that some rule of \<open>grouping_rules\<close> applies to, and the warning
  printed for one that no rule applies to.\<close>

definition grouped :: "string \<Rightarrow> sample_file \<Rightarrow> bool" where
  "grouped folder_type file = list_ex (\<lambda>rule. rule_matches rule (stem (fname file)) folder_type) grouping_rules"

definition skip_warning :: "string \<Rightarrow> sample_file \<Rightarrow> error" where
  "skip_warning folder_type file = NoGroupMatch (stem (fname file)) folder_type"

subsection \<open>Example rules, files and folders\<close>

text \<open>Two rules for the same role whose prefixes overlap.\<close>

definition overlapping_rules :: "(string \<times> string list \<times> string) list" where
  "overlapping_rules =
     [(''removed'', [''m6A_0''], ''other role''),
      (''total'', [''m6A_1''], ''first''),
      (''total'', [''m6A_10'', ''m6A_1''], ''second'')]"

definition sample_columns :: "string list" where
  "sample_columns = [''Chr'', ''Sites'', ''Gene_Type'']"

definition good_file :: sample_file where
  "good_file = \<lparr>fname = ''m6A_1_rep1.csv'',
     content = Some \<lparr>columns = sample_columns,
       rows = [[Some ''chr1'', Some ''10'', Some ''Protein_Coding''],
               [Some ''chr1'', Some ''20'', Some ''tRNA''],
               [Some ''chr1'', Some ''30'', Some ''intergenic'']]\<rparr>\<rparr>"

text \<open>A file that no rule of the role \<open>total\<close> applies to, and whose header has no
  \<open>Gene_Type\<close> column.\<close>

definition stray_file :: sample_file where
  "stray_file = \<lparr>fname = ''control_rep1.csv'',
     content = Some \<lparr>columns = [''Chr'', ''Sites''], rows = [[Some ''chr1'', Some ''10'']]\<rparr>\<rparr>"

text \<open>A file that a rule applies to, without the \<open>Gene_Type\<close> column.\<close>

definition headless_file :: sample_file where
  "headless_file = \<lparr>fname = ''m6A_2_rep1.csv'',
     content = Some \<lparr>columns = [''Chr'', ''Sites''], rows = [[Some ''chr1'', Some ''10'']]\<rparr>\<rparr>"


definition stray_and_good :: folder where
  "stray_and_good = \<lparr>folder_path = ''totalRNA'', folder_exists = True, folder_is_dir = True,
     folder_files = [stray_file, good_file]\<rparr>"

definition good_and_headless :: folder where
  "good_and_headless = \<lparr>folder_path = ''totalRNA'', folder_exists = True, folder_is_dir = True,
     folder_files = [good_file, headless_file]\<rparr>"

definition good_only :: folder where
  "good_only = \<lparr>folder_path = ''totalRNA'', folder_exists = True, folder_is_dir = True,
     folder_files = [good_file]\<rparr>"


section \<open>The normalizers\<close>

subsection \<open>Python floats\<close>

text \<open>
  A Python \<open>float\<close> is an IEEE 754 binary64 number; division and multiplication return
  the representable number nearest to the exact result, ties to the even significand.
  \<open>float64 x\<close> is that number for a real \<open>x\<close>: the significand has 53 bits, so the
  spacing at \<open>x\<close> is \<open>2\<close> to the power \<open>\<lfloor>log\<^sub>2 \<bar>x\<bar>\<rfloor> - 52\<close>. The exponent range of
  binary64 is left out: results here lie between \<open>1 / total\<close> and \<open>100\<close>, where a count
  is the length of a list, far inside the normal range. \<open>true_div\<close> is \<open>/\<close> on two
  integers (Python rounds the exact quotient once; pandas converts both counts, exactly
  below \<open>2\<^sup>5\<^sup>3\<close>, and divides), \<open>float_mul\<close> is \<open>*\<close>.
\<close>

definition round_even :: "real \<Rightarrow> int" where
  "round_even y =
     (let f = \<lfloor>y\<rfloor>; r = y - of_int f
      in if r < 1 / 2 then f else if 1 / 2 < r then f + 1 else if even f then f else f + 1)"

definition float64 :: "real \<Rightarrow> real" where
  "float64 x =
     (if x = 0 then 0
      else (let ulp = 2 powr (of_int (\<lfloor>log 2 \<bar>x\<bar>\<rfloor> - 52))
            in of_int (round_even (x / ulp)) * ulp))"

definition true_div :: "nat \<Rightarrow> nat \<Rightarrow> real" where
  "true_div a b = float64 (real a / real b)"

definition float_mul :: "real \<Rightarrow> real \<Rightarrow> real" where
  "float_mul a b = float64 (a * b)"

subsection \<open>\<open>main\<close> of the region variant: \<open>normalized\<close>\<close>

text \<open>The keys of \<open>layer_counts\<close> in insertion order; \<open>total\<close> is the sum over them at
  one position, and \<open>normalized[layer]\<close> is built position by position.\<close>

definition layer_names :: "(layers \<Rightarrow> nat list) list" where
  "layer_names = [mod_unique37, unique_37, shared, unique_45, mod_unique45]"

definition max_height :: real where
  "max_height = 100"

definition total_at :: "layers \<Rightarrow> nat \<Rightarrow> nat" where
  "total_at L idx = sum_list (map (\<lambda>l. l L ! idx) layer_names)"

definition normalized :: "layers \<Rightarrow> (layers \<Rightarrow> nat list) \<Rightarrow> real list" where
  "normalized L layer =
     map (\<lambda>idx. let total_idx = total_at L idx
                 in if total_idx = 0 then 0
                    else float_mul (true_div (layer L ! idx) total_idx) max_height)
       [0..<length region_order]"

subsection \<open>\<open>plot_rna_distribution\<close>: \<open>counts\<close>, \<open>total_counts\<close>, \<open>pivot_data\<close>\<close>

text \<open>
  \<open>groupby(["group", "rna_type"]).size()\<close> has one row per pair that occurs, with the
  number of rows of \<open>all_data\<close> of that pair; \<open>transform("sum")\<close> gives each of them the
  sum over its group; \<open>pivot(...).fillna(0)\<close> is the table of percentages by group and
  RNA type, with 0 where the pair does not occur. The order pandas sorts the keys in
  plays no part. The table \<open>counts\<close> is \<open>group_counts\<close> here, its column \<open>percentage\<close>
  is \<open>percentage\<close>.
\<close>

definition group_key :: "sample_row \<Rightarrow> string \<times> string" where
  "group_key r = (row_group r, row_rna_type r)"

definition group_counts :: "sample_row list \<Rightarrow> ((string \<times> string) \<times> nat) list" where
  "group_counts data =
     map (\<lambda>k. (k, length [r \<leftarrow> data. group_key r = k])) (remdups (map group_key data))"

definition total_counts :: "((string \<times> string) \<times> nat) list \<Rightarrow> string \<Rightarrow> nat" where
  "total_counts cnt g = sum_list (map snd [e \<leftarrow> cnt. fst (fst e) = g])"

definition percentage :: "((string \<times> string) \<times> nat) list \<Rightarrow> ((string \<times> string) \<times> real) list" where
  "percentage cnt =
     map (\<lambda>e. (fst e, float_mul (true_div (snd e) (total_counts cnt (fst (fst e)))) 100)) cnt"

definition pivot_index :: "sample_row list \<Rightarrow> string list" where
  "pivot_index data = remdups (map (fst \<circ> fst) (group_counts data))"

definition pivot_columns :: "sample_row list \<Rightarrow> string list" where
  "pivot_columns data = remdups (map (snd \<circ> fst) (group_counts data))"

definition pivot_data :: "sample_row list \<Rightarrow> string \<Rightarrow> string \<Rightarrow> real" where
  "pivot_data data g t =
     (case map_of (percentage (group_counts data)) (g, t) of None \<Rightarrow> 0 | Some p \<Rightarrow> p)"

subsection \<open>Notions used to state the properties of the normalizers\<close>

text \<open>The percentage of a count in a total, as both normalizers compute it, and the
  number of rows of a group and RNA type.\<close>

definition percent :: "nat \<Rightarrow> nat \<Rightarrow> real" where
  "percent c n = float_mul (true_div c n) 100"

definition rows_of :: "sample_row list \<Rightarrow> string \<Rightarrow> string \<Rightarrow> nat" where
  "rows_of data g t = length [r \<leftarrow> data. row_group r = g \<and> row_rna_type r = t]"

definition example_layers :: layers where
  "example_layers = \<lparr>mod_unique37 = [1, 0, 0, 0, 0], unique_37 = [1, 0, 0, 0, 0],
     shared = [2, 0, 0, 0, 0], unique_45 = [0, 0, 0, 0, 0], mod_unique45 = [0, 0, 0, 0, 0]\<rparr>"

definition example_data :: "sample_row list" where
  "example_data =
     [\<lparr>row_site = Some ''10'', row_gene_type = Some ''protein_coding'', row_rna_type = ''mRNA'',
        row_group = ''OD600=1''\<rparr>,
      \<lparr>row_site = Some ''20'', row_gene_type = Some ''tRNA'', row_rna_type = ''ncRNA'',
        row_group = ''OD600=1''\<rparr>]"

section \<open>Facts about the string primitives\<close>

lemma startswith_iff: "startswith s p \<longleftrightarrow> (\<exists>r. s = p @ r)"
  by (induction s p rule: startswith.induct) auto

lemma startswith_prefix: "startswith s p \<longleftrightarrow> prefix p s"
  by (simp add: startswith_iff prefix_def)

lemma str_in_iff: "str_in sub s \<longleftrightarrow> (\<exists>before after. s = before @ sub @ after)"
proof (induction s)
  case Nil
  then show ?case by auto
next
  case (Cons c cs)
  show ?case
  proof
    assume "str_in sub (c # cs)"
    then consider "startswith (c # cs) sub" | "str_in sub cs" by auto
    then show "\<exists>before after. c # cs = before @ sub @ after"
    proof cases
      case 1
      then obtain r where "c # cs = sub @ r" by (auto simp: startswith_iff)
      then have "c # cs = [] @ sub @ r" by simp
      then show ?thesis by blast
    next
      case 2
      then obtain b a where "cs = b @ sub @ a" using Cons.IH by blast
      then have "c # cs = (c # b) @ sub @ a" by simp
      then show ?thesis by blast
    qed
  next
    assume "\<exists>before after. c # cs = before @ sub @ after"
    then obtain b a where ba: "c # cs = b @ sub @ a" by blast
    show "str_in sub (c # cs)"
    proof (cases b)
      case Nil
      with ba have "startswith (c # cs) sub" by (auto simp: startswith_iff)
      then show ?thesis by simp
    next
      case (Cons b0 bs)
      with ba have "cs = bs @ sub @ a" by simp
      then have "str_in sub cs" using Cons.IH by blast
      then show ?thesis by simp
    qed
  qed
qed

lemma lower_char_idem: "lower_char (lower_char c) = lower_char c"
  by (simp add: lower_char_def ascii_uppercase_def ascii_lowercase_def)

lemma lower_idem: "lower (lower s) = lower s"
  by (simp add: lower_def lower_char_idem)

lemma split_nonempty: "split sep s \<noteq> []"
  by (induction s) (auto split: list.splits)

section \<open>Facts about \<open>process_sites_file\<close>\<close>

lemma getitem_column: "col \<in> set (columns df) \<Longrightarrow> \<exists>c. getitem df row col = Inr c"
  by (simp add: getitem_def)

lemma notna_values_empty:
  "set cols \<subseteq> set (columns df) \<Longrightarrow> notna_values df row cols = [] \<longleftrightarrow> all_null df row cols"
proof (induction cols)
  case Nil
  then show ?case by (simp add: notna_values_def all_null_def)
next
  case (Cons c cs)
  then obtain v where v: "getitem df row c = Inr v" using getitem_column [of c df row] by auto
  from Cons have "notna_values df row cs = [] \<longleftrightarrow> all_null df row cs" by simp
  then show ?case using v
    by (cases v) (auto simp: notna_values_def all_null_def)
qed

lemma recorded_iff: "recorded df row \<longleftrightarrow> gene_types df row \<noteq> [] \<and> gene_names df row \<noteq> []"
  unfolding recorded_def gene_types_def gene_names_def
  by (subst notna_values_empty, simp add: gene_type_cols_def)
     (subst notna_values_empty, simp_all add: gene_name_cols_def)

lemma process_row_cases:
  assumes "process_row df rc i row (regs, rnas) = Inr (regs', rnas')"
  shows "\<exists>sid rid. site_id df row = Inr sid \<and> rna_id df rc i row sid = Inr rid \<and>
           (if recorded df row
            then regs' = AList.update sid (region_of_row df row) regs \<and> rnas' = AList.update sid rid rnas
            else regs' = regs \<and> rnas' = rnas)"
  using assms unfolding process_row_def recorded_iff region_of_row_def
  by (auto split: sum.splits list.splits)

lemma find_append_last:
  "find P (xs @ [x]) = (case find P xs of None \<Rightarrow> (if P x then Some x else None) | Some y \<Rightarrow> Some y)"
  by (induction xs) auto

lemma process_rows_regions:
  "process_rows df rc xs (regs0, rnas0) = Inr (regs, rnas) \<Longrightarrow>
   map_of regs k =
     (case find (\<lambda>(i, row). recorded df row \<and> site_id df row = Inr k) (rev xs) of
        None \<Rightarrow> map_of regs0 k
      | Some (i, row) \<Rightarrow> Some (region_of_row df row))"
proof (induction xs arbitrary: regs0 rnas0)
  case Nil
  then show ?case by simp
next
  case (Cons x xs)
  obtain i row where x: "x = (i, row)" by (cases x)
  from Cons.prems x obtain regs1 rnas1 where
    step: "process_row df rc i row (regs0, rnas0) = Inr (regs1, rnas1)" and
    rest: "process_rows df rc xs (regs1, rnas1) = Inr (regs, rnas)"
    by (auto split: sum.splits)
  from process_row_cases [OF step] obtain sid rid where
    sid: "site_id df row = Inr sid" and
    upd: "if recorded df row
          then regs1 = AList.update sid (region_of_row df row) regs0 \<and> rnas1 = AList.update sid rid rnas0
          else regs1 = regs0 \<and> rnas1 = rnas0"
    by blast
  have first: "map_of regs1 k =
      (if recorded df row \<and> site_id df row = Inr k then Some (region_of_row df row) else map_of regs0 k)"
    using sid upd by (auto simp: update_conv' split: if_splits)
  show ?case
    using Cons.IH [OF rest] first x
    by (simp add: find_append_last split: option.splits)
qed

lemma process_rows_rna:
  "process_rows df rc xs (regs0, rnas0) = Inr (regs, rnas) \<Longrightarrow>
   map_of rnas k =
     (case find (\<lambda>(i, row). recorded df row \<and> site_id df row = Inr k) (rev xs) of
        None \<Rightarrow> map_of rnas0 k
      | Some (i, row) \<Rightarrow> (case rna_id df rc i row k of Inl e \<Rightarrow> None | Inr t \<Rightarrow> Some t))"
proof (induction xs arbitrary: regs0 rnas0)
  case Nil
  then show ?case by simp
next
  case (Cons x xs)
  obtain i row where x: "x = (i, row)" by (cases x)
  from Cons.prems x obtain regs1 rnas1 where
    step: "process_row df rc i row (regs0, rnas0) = Inr (regs1, rnas1)" and
    rest: "process_rows df rc xs (regs1, rnas1) = Inr (regs, rnas)"
    by (auto split: sum.splits)
  from process_row_cases [OF step] obtain sid rid where
    sid: "site_id df row = Inr sid" and rid: "rna_id df rc i row sid = Inr rid" and
    upd: "if recorded df row
          then regs1 = AList.update sid (region_of_row df row) regs0 \<and> rnas1 = AList.update sid rid rnas0
          else regs1 = regs0 \<and> rnas1 = rnas0"
    by blast
  have first: "map_of rnas1 k =
      (if recorded df row \<and> site_id df row = Inr k
       then (case rna_id df rc i row k of Inl e \<Rightarrow> None | Inr t \<Rightarrow> Some t) else map_of rnas0 k)"
    using sid rid upd by (auto simp: update_conv' split: if_splits)
  show ?case
    using Cons.IH [OF rest] first x
    by (simp add: find_append_last split: option.splits)
qed

lemma process_rows_keys:
  "process_rows df rc xs (regs0, rnas0) = Inr (regs, rnas) \<Longrightarrow>
   map fst regs0 = map fst rnas0 \<Longrightarrow> distinct (map fst regs0) \<Longrightarrow>
   map fst regs = map fst rnas \<and> distinct (map fst regs)"
proof (induction xs arbitrary: regs0 rnas0)
  case Nil
  then show ?case by simp
next
  case (Cons x xs)
  obtain i row where x: "x = (i, row)" by (cases x)
  from Cons.prems(1) x obtain regs1 rnas1 where
    step: "process_row df rc i row (regs0, rnas0) = Inr (regs1, rnas1)" and
    rest: "process_rows df rc xs (regs1, rnas1) = Inr (regs, rnas)"
    by (auto split: sum.splits)
  from process_row_cases [OF step] obtain sid rid where
    upd: "if recorded df row
          then regs1 = AList.update sid (region_of_row df row) regs0 \<and> rnas1 = AList.update sid rid rnas0
          else regs1 = regs0 \<and> rnas1 = rnas0"
    by blast
  have "map fst regs1 = map fst rnas1" "distinct (map fst regs1)"
    using upd Cons.prems(2,3) by (auto simp: update_keys distinct_update split: if_splits)
  then show ?case by (rule Cons.IH [OF rest])
qed


lemma set_enumerate_rows: "snd ` set (enumerate n xs) = set xs"
  by (metis list.set_map map_snd_enumerate)

lemma find_None_iff': "find P xs = None \<longleftrightarrow> (\<forall>x \<in> set xs. \<not> P x)"
  by (induction xs) auto

lemma last_row_for_None:
  "last_row_for df k = None \<longleftrightarrow> \<not> (\<exists>row \<in> set (rows df). recorded df row \<and> site_id df row = Inr k)"
proof -
  have "last_row_for df k = None \<longleftrightarrow>
        (\<forall>x \<in> set (enumerate 0 (rows df)). \<not> (recorded df (snd x) \<and> site_id df (snd x) = Inr k))"
    unfolding last_row_for_def find_None_iff' by (auto simp: case_prod_beta)
  also have "\<dots> \<longleftrightarrow> (\<forall>row \<in> snd ` set (enumerate 0 (rows df)). \<not> (recorded df row \<and> site_id df row = Inr k))"
    by blast
  finally show ?thesis by (simp add: set_enumerate_rows)
qed




section \<open>Facts about the counting part of \<open>main\<close>\<close>

lemma match_s45_eq:
  "match_s45 r37 r45 a xs acc =
     acc \<union> {s. \<exists>b. b \<in> set xs \<and> position a = position b \<and> map_of r37 a = map_of r45 b \<and> (s = a \<or> s = b)}"
  by (induction xs arbitrary: acc) auto

lemma match_s37_eq:
  "match_s37 r37 r45 ys xs acc =
     acc \<union> {s. \<exists>a b. a \<in> set ys \<and> b \<in> set xs \<and> position a = position b \<and> map_of r37 a = map_of r45 b \<and> (s = a \<or> s = b)}"
  by (induction ys arbitrary: acc) (auto simp: match_s45_eq)

lemma set_shared_site: "set (shared_site regs rna rnas) = {s \<in> fst ` set regs. rna_in rna s rnas}"
  by (auto simp: shared_site_def)

lemma shared_mod_sites_eq:
  "shared_mod_sites r37 n37 r45 n45 =
     {s. \<exists>a b. a \<in> fst ` set r37 \<and> rna_in n37 a (shared_rna n37 n45) \<and>
                b \<in> fst ` set r45 \<and> rna_in n45 b (shared_rna n37 n45) \<and>
                position a = position b \<and> map_of r37 a = map_of r45 b \<and> (s = a \<or> s = b)}"
  unfolding shared_mod_sites_def Let_def match_s37_eq set_shared_site by auto













section \<open>Properties of the region variant\<close>

text \<open>
  C5. \<open>parse_region\<close> resolves in a fixed priority order. When the lower-cased name
  contains \<open>upstream\<close> the result is \<open>5' UTR\<close>; otherwise, when it contains
  \<open>downstream\<close>, the result is \<open>3' UTR\<close>; otherwise the lower-cased type label decides:
  \<open>trna\<close>, \<open>rrna\<close>, \<open>ncrna\<close>, \<open>non-coding\<close> and \<open>pseudogene\<close> give \<open>ncRNA\<close>,
  \<open>protein_coding\<close> gives \<open>CDS\<close>, \<open>intergenic\<close> gives \<open>Intergenic\<close>, and every other
  label gives \<open>Other\<close>. Containment is stated as the existence of the text before and
  after the occurrence.
\<close>

theorem parse_region_priority:
  "parse_region gene_type gene_name =
     (if (\<exists>before after. lower gene_name = before @ ''upstream'' @ after) then ''5' UTR''
      else if (\<exists>before after. lower gene_name = before @ ''downstream'' @ after) then ''3' UTR''
      else if lower gene_type \<in> {''trna'', ''rrna'', ''ncrna'', ''non-coding'', ''pseudogene''}
           then ''ncRNA''
      else if lower gene_type = ''protein_coding'' then ''CDS''
      else if lower gene_type = ''intergenic'' then ''Intergenic''
      else ''Other'')"
  unfolding parse_region_def Let_def str_in_iff by simp


text \<open>
  C10. \<open>process_sites_file\<close> returns two dictionaries with the same keys, in the same
  order and without repetition. A site identifier is a key exactly when some row of the
  file with that identifier is recorded, that is, when neither its gene-type columns nor
  its gene-name columns are all missing; a row that is not recorded adds nothing. The
  values of a key come from the last recorded row with that identifier: later rows
  overwrite earlier ones.
\<close>

theorem process_sites_file_maps:
  assumes "process_sites_file df = Inr (site_regions, site_to_rna)"
  shows "map fst site_regions = map fst site_to_rna \<and>
         distinct (map fst site_regions) \<and>
         (\<forall>k. k \<in> fst ` set site_regions \<longleftrightarrow>
                (\<exists>row \<in> set (rows df). recorded df row \<and> site_id df row = Inr k)) \<and>
         (\<forall>k i row. last_row_for df k = Some (i, row) \<longrightarrow>
                map_of site_regions k = Some (region_of_row df row) \<and>
                (\<exists>rna_col t. rna_id_col df = Inr rna_col \<and> rna_id df rna_col i row k = Inr t \<and>
                              map_of site_to_rna k = Some t))"
proof -
  from assms obtain rc where rc: "rna_id_col df = Inr rc"
    and run: "process_rows df rc (enumerate 0 (rows df)) ([], []) = Inr (site_regions, site_to_rna)"
    by (auto simp: process_sites_file_def split: sum.splits)
  have keys: "map fst site_regions = map fst site_to_rna \<and> distinct (map fst site_regions)"
    by (rule process_rows_keys [OF run]) simp_all
  have regs: "map_of site_regions k =
      (case last_row_for df k of None \<Rightarrow> None | Some (i, row) \<Rightarrow> Some (region_of_row df row))" for k
    using process_rows_regions [OF run, of k] by (simp add: last_row_for_def split: option.splits)
  have rnas: "map_of site_to_rna k =
      (case last_row_for df k of None \<Rightarrow> None
       | Some (i, row) \<Rightarrow> (case rna_id df rc i row k of Inl e \<Rightarrow> None | Inr t \<Rightarrow> Some t))" for k
    using process_rows_rna [OF run, of k] by (simp add: last_row_for_def split: option.splits)
  have dom: "k \<in> fst ` set site_regions \<longleftrightarrow>
      (\<exists>row \<in> set (rows df). recorded df row \<and> site_id df row = Inr k)" for k
  proof -
    have "k \<in> fst ` set site_regions \<longleftrightarrow> map_of site_regions k \<noteq> None"
      by (simp add: map_of_eq_None_iff)
    also have "\<dots> \<longleftrightarrow> last_row_for df k \<noteq> None"
      by (simp add: regs split: option.splits)
    finally show ?thesis by (simp add: last_row_for_None)
  qed
  have vals: "map_of site_regions k = Some (region_of_row df row) \<and>
      (\<exists>rna_col t. rna_id_col df = Inr rna_col \<and> rna_id df rna_col i row k = Inr t \<and>
                    map_of site_to_rna k = Some t)"
    if last: "last_row_for df k = Some (i, row)" for k i row
  proof -
    have r: "map_of site_regions k = Some (region_of_row df row)"
      using regs [of k] last by simp
    then have "k \<in> fst ` set site_regions" by (metis map_of_eq_None_iff option.distinct(1))
    then have "k \<in> fst ` set site_to_rna" using keys by (metis list.set_map)
    then have "map_of site_to_rna k \<noteq> None" by (simp add: map_of_eq_None_iff)
    then obtain t where "rna_id df rc i row k = Inr t" "map_of site_to_rna k = Some t"
      using rnas [of k] last by (auto split: sum.splits)
    with r rc show ?thesis by blast
  qed
  show ?thesis using keys dom vals by blast
qed



theorem process_sites_file_maps_witness:
  "process_sites_file repeated_site = Inr ([(''chr1:20'', ''CDS'')], [(''chr1:20'', ''T9'')]) \<and>
   map fst [(''chr1:20'', ''CDS'')] = map fst [(''chr1:20'', ''T9'')] \<and>
   \<not> recorded repeated_site (rows repeated_site ! 1) \<and>
   site_id repeated_site (rows repeated_site ! 1) = Inr ''chr1:30'' \<and>
   ''chr1:30'' \<notin> fst ` set [(''chr1:20'', ''CDS'')] \<and>
   last_row_for repeated_site ''chr1:20'' = Some (2, rows repeated_site ! 2) \<and>
   map_of [(''chr1:20'', ''CDS'')] ''chr1:20'' = Some (region_of_row repeated_site (rows repeated_site ! 2)) \<and>
   map_of [(''chr1:20'', ''T9'')] ''chr1:20'' = Some ''T9''"
proof -
  have run: "process_sites_file repeated_site = Inr ([(''chr1:20'', ''CDS'')], [(''chr1:20'', ''T9'')])"
    by code_simp
  have skipped: "\<not> recorded repeated_site (rows repeated_site ! 1)"
    by code_simp
  have sid: "site_id repeated_site (rows repeated_site ! 1) = Inr ''chr1:30''"
    by code_simp
  have last: "last_row_for repeated_site ''chr1:20'' = Some (2, rows repeated_site ! 2)"
    by code_simp
  from process_sites_file_maps [OF run] last
  have "map fst [(''chr1:20'', ''CDS'')] = map fst [(''chr1:20'', ''T9'')]"
    and "map_of [(''chr1:20'', ''CDS'')] ''chr1:20'' = Some (region_of_row repeated_site (rows repeated_site ! 2))"
    by blast+
  then show ?thesis using run skipped sid last by simp
qed

text \<open>
  C2. The three transcript sets of \<open>main\<close> (\<open>shared_rna\<close>, \<open>unique_rna_37\<close>,
  \<open>unique_rna_45\<close>) are pairwise disjoint, and their union is the union of the
  transcripts of the two conditions.
\<close>

theorem rna_partition:
  "shared_rna sites_37_rna sites_45_rna \<inter> unique_rna_37 sites_37_rna sites_45_rna = {} \<and>
   shared_rna sites_37_rna sites_45_rna \<inter> unique_rna_45 sites_37_rna sites_45_rna = {} \<and>
   unique_rna_37 sites_37_rna sites_45_rna \<inter> unique_rna_45 sites_37_rna sites_45_rna = {} \<and>
   shared_rna sites_37_rna sites_45_rna \<union> unique_rna_37 sites_37_rna sites_45_rna \<union>
     unique_rna_45 sites_37_rna sites_45_rna = rna_values sites_37_rna \<union> rna_values sites_45_rna"
  unfolding shared_rna_def unique_rna_37_def unique_rna_45_def by blast

lemma split_no_sep: "sep \<notin> set s \<Longrightarrow> split sep s = [s]"
  by (induction s) auto

lemma last_split_Cons:
  "last (split sep (x # xs)) =
     (if sep \<in> set xs \<or> x = sep then last (split sep xs) else x # xs)"
proof (cases "x = sep")
  case True
  then show ?thesis by (simp add: split_nonempty)
next
  case False
  show ?thesis
  proof (cases "sep \<in> set xs")
    case no: False
    then show ?thesis using False by (simp add: split_no_sep)
  next
    case True
    then have "length (split sep xs) \<ge> 2"
    proof (induction xs)
      case Nil
      then show ?case by simp
    next
      case (Cons y ys)
      show ?case
      proof (cases "y = sep")
        case True
        have "split sep ys \<noteq> []" by (rule split_nonempty)
        then have "length (split sep ys) \<ge> 1" by (cases "split sep ys") simp_all
        then show ?thesis using True by simp
      next
        case False
        with Cons.prems have "sep \<in> set ys" by simp
        from Cons.IH [OF this] show ?thesis using False
          by (cases "split sep ys") simp_all
      qed
    qed
    then obtain q r rs where "split sep xs = q # r # rs"
      by (cases "split sep xs"; cases "tl (split sep xs)") auto
    then show ?thesis using False True by simp
  qed
qed

lemma position_after_last_colon:
  "position s = rev (takeWhile (\<lambda>c. c \<noteq> CHR '':'') (rev s))"
proof (induction s)
  case Nil
  then show ?case by (simp add: position_def)
next
  case (Cons x xs)
  let ?P = "\<lambda>c. c \<noteq> CHR '':''"
  have IH: "last (split CHR '':'' xs) = rev (takeWhile ?P (rev xs))"
    using Cons.IH by (simp add: position_def)
  have l: "position (x # xs) =
      (if CHR '':'' \<in> set xs \<or> x = CHR '':'' then last (split CHR '':'' xs) else x # xs)"
    unfolding position_def by (rule last_split_Cons)
  show ?case
  proof (cases "CHR '':'' \<in> set xs")
    case True
    then have "takeWhile ?P (rev xs @ [x]) = takeWhile ?P (rev xs)"
      by (auto simp: takeWhile_append)
    then show ?thesis using True l IH by simp
  next
    case False
    then have all: "takeWhile ?P (rev xs) = rev xs"
      by (auto intro: takeWhile_eq_all_conv [THEN iffD2])
    have "takeWhile ?P (rev xs @ [x]) = (if x = CHR '':'' then rev xs else rev xs @ [x])"
      using False by (auto simp: takeWhile_append)
    then show ?thesis using False l IH all by simp
  qed
qed

lemma position_of_site_id:
  assumes "CHR '':'' \<notin> set p"
  shows "position (c @ '':'' @ p) = p"
proof -
  have "takeWhile (\<lambda>c. c \<noteq> CHR '':'') (rev p) = rev p"
    using assms by (auto intro: takeWhile_eq_all_conv [THEN iffD2])
  then show ?thesis
    using assms by (simp add: position_after_last_colon takeWhile_append)
qed

lemma position_of_row:
  assumes "site_id df row = Inr s" and "CHR '':'' \<notin> set (format_cell (cell_at df row ''Sites''))"
  shows "position s = format_cell (cell_at df row ''Sites'')"
proof -
  from assms(1) obtain chr sites where
    g: "getitem df row ''Sites'' = Inr sites" and s: "s = format_cell chr @ '':'' @ format_cell sites"
    by (auto simp: site_id_def split: sum.splits)
  from g have c: "cell_at df row ''Sites'' = sites" by (simp add: cell_at_def)
  from assms(2) c have "CHR '':'' \<notin> set (format_cell sites)" by simp
  from position_of_site_id [OF this, of "format_cell chr"] show ?thesis
    unfolding s c .
qed

lemma shared_mod_sites_text:
  "shared_mod_sites sites_37_regions sites_37_rna sites_45_regions sites_45_rna =
     {s. \<exists>a b region ta tb.
           map_of sites_37_regions a = Some region \<and> map_of sites_45_regions b = Some region \<and>
           map_of sites_37_rna a = Some ta \<and> ta \<in> snd ` set sites_45_rna \<and>
           map_of sites_45_rna b = Some tb \<and> tb \<in> snd ` set sites_37_rna \<and>
           rev (takeWhile (\<lambda>c. c \<noteq> CHR '':'') (rev a)) =
             rev (takeWhile (\<lambda>c. c \<noteq> CHR '':'') (rev b)) \<and>
           (s = a \<or> s = b)}"
  (is "?S = ?R")
proof -
  have in37: "rna_in sites_37_rna a (shared_rna sites_37_rna sites_45_rna) \<longleftrightarrow>
      (\<exists>ta. map_of sites_37_rna a = Some ta \<and> ta \<in> snd ` set sites_45_rna)" for a
  proof (cases "map_of sites_37_rna a")
    case None
    then show ?thesis by (simp add: rna_in_def)
  next
    case (Some t)
    then have "t \<in> snd ` set sites_37_rna" by (metis map_of_SomeD image_eqI snd_conv)
    then show ?thesis using Some by (simp add: rna_in_def shared_rna_def rna_values_def)
  qed
  have in45: "rna_in sites_45_rna b (shared_rna sites_37_rna sites_45_rna) \<longleftrightarrow>
      (\<exists>tb. map_of sites_45_rna b = Some tb \<and> tb \<in> snd ` set sites_37_rna)" for b
  proof (cases "map_of sites_45_rna b")
    case None
    then show ?thesis by (simp add: rna_in_def)
  next
    case (Some t)
    then have "t \<in> snd ` set sites_45_rna" by (metis map_of_SomeD image_eqI snd_conv)
    then show ?thesis using Some by (simp add: rna_in_def shared_rna_def rna_values_def)
  qed
  have key: "a \<in> fst ` set sites_37_regions \<and> b \<in> fst ` set sites_45_regions \<and>
       map_of sites_37_regions a = map_of sites_45_regions b \<longleftrightarrow>
       (\<exists>region. map_of sites_37_regions a = Some region \<and> map_of sites_45_regions b = Some region)"
    for a b
  proof
    assume h: "a \<in> fst ` set sites_37_regions \<and> b \<in> fst ` set sites_45_regions \<and>
       map_of sites_37_regions a = map_of sites_45_regions b"
    then have "map_of sites_37_regions a \<noteq> None" by (simp add: map_of_eq_None_iff)
    then obtain region where "map_of sites_37_regions a = Some region" by auto
    with h show "\<exists>region. map_of sites_37_regions a = Some region \<and> map_of sites_45_regions b = Some region"
      by metis
  next
    assume "\<exists>region. map_of sites_37_regions a = Some region \<and> map_of sites_45_regions b = Some region"
    then obtain region where r: "map_of sites_37_regions a = Some region"
      "map_of sites_45_regions b = Some region" by blast
    then have "map_of sites_37_regions a \<noteq> None" "map_of sites_45_regions b \<noteq> None" by simp_all
    then have "a \<in> fst ` set sites_37_regions" "b \<in> fst ` set sites_45_regions"
      by (simp_all add: map_of_eq_None_iff)
    with r show "a \<in> fst ` set sites_37_regions \<and> b \<in> fst ` set sites_45_regions \<and>
       map_of sites_37_regions a = map_of sites_45_regions b" by simp
  qed
  show ?thesis
  proof (rule set_eqI)
    fix s
    have "s \<in> ?S \<longleftrightarrow>
        (\<exists>a b. (a \<in> fst ` set sites_37_regions \<and> b \<in> fst ` set sites_45_regions \<and>
                 map_of sites_37_regions a = map_of sites_45_regions b) \<and>
               rna_in sites_37_rna a (shared_rna sites_37_rna sites_45_rna) \<and>
               rna_in sites_45_rna b (shared_rna sites_37_rna sites_45_rna) \<and>
               position a = position b \<and> (s = a \<or> s = b))"
      unfolding shared_mod_sites_eq by blast
    also have "\<dots> \<longleftrightarrow> s \<in> ?R"
      unfolding key in37 in45 position_after_last_colon by blast
    finally show "s \<in> ?S \<longleftrightarrow> s \<in> ?R" .
  qed
qed

lemma matching_A_sites:
  "process_sites_file matching_A =
     Inr ([(''chr1:10'', ''CDS''), (''chr1:20'', ''CDS''), (''chr1:40'', ''CDS''), (''chr1:50'', ''CDS'')],
          [(''chr1:10'', ''T1''), (''chr1:20'', ''T1''), (''chr1:40'', ''T2''), (''chr1:50'', ''T1'')])"
  by code_simp

lemma matching_B_sites:
  "process_sites_file matching_B =
     Inr ([(''chr1:20'', ''CDS''), (''chr1:30'', ''CDS''), (''chr1:40'', ''CDS''), (''chr1:50'', ''ncRNA'')],
          [(''chr1:20'', ''T1''), (''chr1:30'', ''T1''), (''chr1:40'', ''T3''), (''chr1:50'', ''T1'')])"
  by code_simp

text \<open>
  C3. After the two nested loops, \<open>shared_mod_sites\<close> holds exactly the members of the
  matching pairs: a site \<open>a\<close> of the first condition and a site \<open>b\<close> of the second, each
  on a transcript that also occurs in the other condition, whose regions are the same and
  whose identifiers carry the same text after their last colon. Both members of such a
  pair are in the set, and nothing else is; a site whose transcript is not shared is
  never one of \<open>a\<close>, \<open>b\<close>. The piece that the code compares, \<open>s.split(':')[-1]\<close>, is
  that text after the last colon: for an identifier built as \<open>chromosome:position\<close> it is
  the position as written, whenever the position has no colon, and so it is the text of
  the \<open>Sites\<close> cell of the row the identifier comes from.
\<close>

theorem shared_mod_sites_exactly:
  "shared_mod_sites sites_37_regions sites_37_rna sites_45_regions sites_45_rna =
     {s. \<exists>a b region ta tb.
           map_of sites_37_regions a = Some region \<and> map_of sites_45_regions b = Some region \<and>
           map_of sites_37_rna a = Some ta \<and> ta \<in> snd ` set sites_45_rna \<and>
           map_of sites_45_rna b = Some tb \<and> tb \<in> snd ` set sites_37_rna \<and>
           rev (takeWhile (\<lambda>c. c \<noteq> CHR '':'') (rev a)) =
             rev (takeWhile (\<lambda>c. c \<noteq> CHR '':'') (rev b)) \<and>
           (s = a \<or> s = b)} \<and>
   position s = rev (takeWhile (\<lambda>c. c \<noteq> CHR '':'') (rev s)) \<and>
   (CHR '':'' \<notin> set p \<longrightarrow> position (c @ '':'' @ p) = p) \<and>
   (site_id df row = Inr s \<and> CHR '':'' \<notin> set (format_cell (cell_at df row ''Sites'')) \<longrightarrow>
      position s = format_cell (cell_at df row ''Sites''))"
  using shared_mod_sites_text [of sites_37_regions sites_37_rna sites_45_regions sites_45_rna]
    position_after_last_colon [of s] position_of_site_id [of p c] position_of_row [of df row s]
  by blast

theorem shared_mod_sites_exactly_witness:
  "process_sites_file matching_A =
     Inr ([(''chr1:10'', ''CDS''), (''chr1:20'', ''CDS''), (''chr1:40'', ''CDS''), (''chr1:50'', ''CDS'')],
          [(''chr1:10'', ''T1''), (''chr1:20'', ''T1''), (''chr1:40'', ''T2''), (''chr1:50'', ''T1'')]) \<and>
   process_sites_file matching_B =
     Inr ([(''chr1:20'', ''CDS''), (''chr1:30'', ''CDS''), (''chr1:40'', ''CDS''), (''chr1:50'', ''ncRNA'')],
          [(''chr1:20'', ''T1''), (''chr1:30'', ''T1''), (''chr1:40'', ''T3''), (''chr1:50'', ''T1'')]) \<and>
   shared_mod_sites
     [(''chr1:10'', ''CDS''), (''chr1:20'', ''CDS''), (''chr1:40'', ''CDS''), (''chr1:50'', ''CDS'')]
     [(''chr1:10'', ''T1''), (''chr1:20'', ''T1''), (''chr1:40'', ''T2''), (''chr1:50'', ''T1'')]
     [(''chr1:20'', ''CDS''), (''chr1:30'', ''CDS''), (''chr1:40'', ''CDS''), (''chr1:50'', ''ncRNA'')]
     [(''chr1:20'', ''T1''), (''chr1:30'', ''T1''), (''chr1:40'', ''T3''), (''chr1:50'', ''T1'')]
     = {''chr1:20''} \<and>
   CHR '':'' \<notin> set ''10'' \<and> position (''chr1'' @ '':'' @ ''10'') = ''10'' \<and>
   CHR '':'' \<notin> set ''30'' \<and> position (''chr1'' @ '':'' @ ''30'') = ''30'' \<and>
   site_id matching_A (rows matching_A ! 1) = Inr ''chr1:20'' \<and>
   CHR '':'' \<notin> set (format_cell (cell_at matching_A (rows matching_A ! 1) ''Sites'')) \<and>
   format_cell (cell_at matching_A (rows matching_A ! 1) ''Sites'') = ''20'' \<and>
   position ''chr1:20'' = ''20''"
proof -
  have sm: "shared_mod_sites
     [(''chr1:10'', ''CDS''), (''chr1:20'', ''CDS''), (''chr1:40'', ''CDS''), (''chr1:50'', ''CDS'')]
     [(''chr1:10'', ''T1''), (''chr1:20'', ''T1''), (''chr1:40'', ''T2''), (''chr1:50'', ''T1'')]
     [(''chr1:20'', ''CDS''), (''chr1:30'', ''CDS''), (''chr1:40'', ''CDS''), (''chr1:50'', ''ncRNA'')]
     [(''chr1:20'', ''T1''), (''chr1:30'', ''T1''), (''chr1:40'', ''T3''), (''chr1:50'', ''T1'')]
     = {''chr1:20''}"
    by code_simp
  have n: "CHR '':'' \<notin> set ''10''" "CHR '':'' \<notin> set ''30''" by simp_all
  have r: "site_id matching_A (rows matching_A ! 1) = Inr ''chr1:20''"
    "CHR '':'' \<notin> set (format_cell (cell_at matching_A (rows matching_A ! 1) ''Sites''))"
    "format_cell (cell_at matching_A (rows matching_A ! 1) ''Sites'') = ''20''"
    by code_simp+
  have p10: "position (''chr1'' @ '':'' @ ''10'') = ''10''"
    using shared_mod_sites_exactly [where p = "''10''" and c = "''chr1''"] n(1) by blast
  have p30: "position (''chr1'' @ '':'' @ ''30'') = ''30''"
    using shared_mod_sites_exactly [where p = "''30''" and c = "''chr1''"] n(2) by blast
  have "position ''chr1:20'' = format_cell (cell_at matching_A (rows matching_A ! 1) ''Sites'')"
    using shared_mod_sites_exactly [where df = matching_A and row = "rows matching_A ! 1"
        and s = "''chr1:20''"] r(1,2) by blast
  then have p20: "position ''chr1:20'' = ''20''" by (simp only: r(3))
  from matching_A_sites matching_B_sites sm n r p10 p30 p20 show ?thesis by blast
qed





section \<open>Facts about the depletion variant\<close>

lemma first_rule_find:
  "first_rule rules fs ft =
     (case find (\<lambda>rule. rule_matches rule fs ft) rules of
        None \<Rightarrow> Inl (NoGroupMatch fs ft)
      | Some rule \<Rightarrow> Inr (snd (snd rule)))"
  by (induction rules fs ft rule: first_rule.induct)
     (auto simp: rule_matches_def list_ex_iff startswith_prefix)

lemma first_rule_Inl_iff:
  "first_rule rules fs ft = Inl e \<longleftrightarrow>
     e = NoGroupMatch fs ft \<and> (\<forall>rule \<in> set rules. \<not> rule_matches rule fs ft)"
proof (cases "find (\<lambda>rule. rule_matches rule fs ft) rules")
  case None
  then have "\<forall>rule \<in> set rules. \<not> rule_matches rule fs ft"
    by (auto simp: find_None_iff)
  then show ?thesis using None by (auto simp: first_rule_find)
next
  case (Some r)
  then have "r \<in> set rules" "rule_matches r fs ft"
    by (auto simp: find_Some_iff)
  then show ?thesis using Some by (auto simp: first_rule_find)
qed

lemma first_rule_Inr_iff:
  "first_rule rules fs ft = Inr g \<longleftrightarrow>
     (\<exists>i < length rules. rule_matches (rules ! i) fs ft \<and>
         (\<forall>j < i. \<not> rule_matches (rules ! j) fs ft) \<and> g = snd (snd (rules ! i)))"
  (is "?lhs \<longleftrightarrow> ?rhs")
proof (cases "find (\<lambda>rule. rule_matches rule fs ft) rules")
  case None
  then have "\<forall>rule \<in> set rules. \<not> rule_matches rule fs ft"
    by (auto simp: find_None_iff)
  then have "\<not> ?rhs" using nth_mem by blast
  moreover have "\<not> ?lhs" by (simp add: first_rule_find None)
  ultimately show ?thesis by blast
next
  case (Some r)
  then obtain i where i: "i < length rules" "rule_matches (rules ! i) fs ft" "r = rules ! i"
      "\<forall>j < i. \<not> rule_matches (rules ! j) fs ft"
    unfolding find_Some_iff by blast
  have l: "?lhs \<longleftrightarrow> g = snd (snd r)" by (auto simp: first_rule_find Some)
  have "?rhs \<longleftrightarrow> g = snd (snd r)"
  proof
    assume ?rhs
    then obtain k where k: "k < length rules" "rule_matches (rules ! k) fs ft"
        "\<forall>j < k. \<not> rule_matches (rules ! j) fs ft" "g = snd (snd (rules ! k))"
      by blast
    have "\<not> k < i" using i(4) k(2) by blast
    moreover have "\<not> i < k" using k(3) i(2) by blast
    ultimately have "k = i" by simp
    then show "g = snd (snd r)" using k(4) i(3) by simp
  next
    assume "g = snd (snd r)"
    then show ?rhs using i by blast
  qed
  with l show ?thesis by simp
qed


lemma is_space_lower_char: "is_space (lower_char c) = is_space c"
  by (simp add: is_space_def whitespace_def lower_char_def ascii_uppercase_def ascii_lowercase_def)

lemma dropWhile_space_lower: "dropWhile is_space (lower s) = lower (dropWhile is_space s)"
  by (induction s) (simp_all add: lower_def is_space_lower_char)

lemma lower_rev: "lower (rev s) = rev (lower s)"
  by (simp add: lower_def rev_map)

lemma strip_lower: "strip (lower s) = lower (strip s)"
  by (simp add: strip_def dropWhile_space_lower lower_rev [symmetric])

lemma lower_Nil_iff: "lower s = [] \<longleftrightarrow> s = []"
  by (simp add: lower_def)

lemma gene_type_to_rna_values:
  "map_of gene_type_to_rna k = Some v \<Longrightarrow> v \<in> {''mRNA'', ''rRNA'', ''ncRNA''}"
  by (drule map_of_SomeD) (auto simp: gene_type_to_rna_def)

lemma gene_type_to_rna_empty: "map_of gene_type_to_rna [] = None"
  by (simp add: gene_type_to_rna_def)

lemma convert_Some:
  "convert_gene_to_rna (Some t) d =
     (case map_of gene_type_to_rna (lower (strip t)) of None \<Rightarrow> d | Some rna \<Rightarrow> rna)"
  by (simp add: convert_gene_to_rna_def Let_def lower_def gene_type_to_rna_empty)

lemma convert_case_insensitive:
  assumes "lower s = lower t"
  shows "convert_gene_to_rna (Some s) d = convert_gene_to_rna (Some t) d"
proof -
  have "lower (strip s) = lower (strip t)"
    using assms by (simp add: strip_lower [symmetric])
  then show ?thesis by (simp add: convert_Some)
qed

lemma convert_range:
  "convert_gene_to_rna g ''unknown'' \<in> {''mRNA'', ''rRNA'', ''ncRNA'', ''unknown''}"
proof (cases g)
  case None
  then show ?thesis by (simp add: convert_gene_to_rna_def)
next
  case (Some t)
  show ?thesis
  proof (cases "map_of gene_type_to_rna (lower (strip t))")
    case None
    then show ?thesis using Some by (simp add: convert_Some)
  next
    case (Some v)
    from gene_type_to_rna_values [OF this] show ?thesis using \<open>g = Some t\<close> Some
      by (auto simp: convert_Some)
  qed
qed


section \<open>Properties of the depletion variant\<close>

text \<open>
  C7. \<open>get_group_name\<close> scans \<open>grouping_rules\<close> in order and returns the target group of
  the first rule whose role is the folder role and one of whose prefixes starts the file
  stem: the result is the target of the rule at position \<open>i\<close> exactly when that rule
  applies and no rule before it does, whatever later rules would say. When no rule
  applies it raises the \<open>ValueError\<close>. The stem \<open>m6A_03_rep1\<close> under the role \<open>removed\<close>
  is assigned \<open>OD600=0.3(-rRNA)\<close>.
\<close>

theorem get_group_name_first_match:
  "(first_rule rules file_stem folder_type = Inr g \<longleftrightarrow>
      (\<exists>i < length rules. rule_matches (rules ! i) file_stem folder_type \<and>
          (\<forall>j < i. \<not> rule_matches (rules ! j) file_stem folder_type) \<and>
          g = snd (snd (rules ! i)))) \<and>
   (first_rule rules file_stem folder_type = Inl e \<longleftrightarrow>
      e = NoGroupMatch file_stem folder_type \<and>
      (\<forall>rule \<in> set rules. \<not> rule_matches rule file_stem folder_type)) \<and>
   get_group_name file_stem folder_type = first_rule grouping_rules file_stem folder_type \<and>
   get_group_name ''m6A_03_rep1'' ''removed'' = Inr ''OD600=0.3(-rRNA)''"
proof -
  have "get_group_name ''m6A_03_rep1'' ''removed'' = Inr ''OD600=0.3(-rRNA)''"
    by code_simp
  then show ?thesis
    using first_rule_Inr_iff [of rules file_stem folder_type g]
      first_rule_Inl_iff [of rules file_stem folder_type e]
    by (simp only: get_group_name_def simp_thms)
qed

theorem get_group_name_first_match_witness:
  "first_rule overlapping_rules ''m6A_10_rep2'' ''total'' = Inr ''first'' \<and>
   \<not> rule_matches (overlapping_rules ! 0) ''m6A_10_rep2'' ''total'' \<and>
   rule_matches (overlapping_rules ! 1) ''m6A_10_rep2'' ''total'' \<and>
   rule_matches (overlapping_rules ! 2) ''m6A_10_rep2'' ''total'' \<and>
   (\<exists>i < length overlapping_rules.
       rule_matches (overlapping_rules ! i) ''m6A_10_rep2'' ''total'' \<and>
       (\<forall>j < i. \<not> rule_matches (overlapping_rules ! j) ''m6A_10_rep2'' ''total'') \<and>
       ''first'' = snd (snd (overlapping_rules ! i)))"
proof -
  have e: "first_rule overlapping_rules ''m6A_10_rep2'' ''total'' = Inr ''first''"
    by code_simp
  have m: "\<not> rule_matches (overlapping_rules ! 0) ''m6A_10_rep2'' ''total''"
    "rule_matches (overlapping_rules ! 1) ''m6A_10_rep2'' ''total''"
    "rule_matches (overlapping_rules ! 2) ''m6A_10_rep2'' ''total''"
    by code_simp+
  from get_group_name_first_match [of overlapping_rules "''m6A_10_rep2''" "''total''" "''first''"] e
  have "\<exists>i < length overlapping_rules.
       rule_matches (overlapping_rules ! i) ''m6A_10_rep2'' ''total'' \<and>
       (\<forall>j < i. \<not> rule_matches (overlapping_rules ! j) ''m6A_10_rep2'' ''total'') \<and>
       ''first'' = snd (snd (overlapping_rules ! i))"
    by blast
  with e m show ?thesis by blast
qed

text \<open>
  C4, as the code has it. In \<open>group_proportion_style.py\<close>, \<open>convert_gene_to_rna\<close> is
  defined on every string and on a missing value: it strips the white space around the
  label, lower-cases it and looks it up in \<open>gene_type_to_rna\<close>; labels that differ only in
  case convert alike, a label that is not a key (the empty one too) and a missing value
  give the default, and with the default \<open>unknown\<close> the result is one of \<open>mRNA\<close>,
  \<open>rRNA\<close>, \<open>ncRNA\<close>, \<open>unknown\<close>. In \<open>FDR_proportion_plotting.py\<close> the lookup is
  \<open>gene_type_to_rna.get(x, x)\<close> in the table of that script: it compares the label as
  written and returns a label that is not a key unchanged.
\<close>

theorem convert_gene_to_rna_lookup:
  "convert_gene_to_rna None d = d \<and>
   convert_gene_to_rna (Some t) d =
     (case map_of gene_type_to_rna (lower (strip t)) of None \<Rightarrow> d | Some rna \<Rightarrow> rna) \<and>
   (lower s = lower t \<longrightarrow> convert_gene_to_rna (Some s) d = convert_gene_to_rna (Some t) d) \<and>
   convert_gene_to_rna g ''unknown'' \<in> {''mRNA'', ''rRNA'', ''ncRNA'', ''unknown''} \<and>
   rna_type_FDR x = (case map_of gene_type_to_rna_FDR x of None \<Rightarrow> x | Some rna \<Rightarrow> rna)"
  using convert_Some [of t d] convert_case_insensitive [of s t d] convert_range [of g]
  by (simp add: convert_gene_to_rna_def rna_type_FDR_def)

theorem convert_gene_to_rna_lookup_witness:
  "lower ''Protein_Coding'' = lower ''protein_coding'' \<and>
   convert_gene_to_rna (Some ''Protein_Coding'') ''unknown'' =
     convert_gene_to_rna (Some ''protein_coding'') ''unknown'' \<and>
   convert_gene_to_rna (Some ''protein_coding'') ''unknown'' = ''mRNA'' \<and>
   convert_gene_to_rna (Some '' rRNA_gene '') ''unknown'' = ''rRNA'' \<and>
   convert_gene_to_rna (Some ''intergenic'') ''unknown'' = ''unknown'' \<and>
   convert_gene_to_rna (Some []) ''unknown'' = ''unknown''"
proof -
  have l: "lower ''Protein_Coding'' = lower ''protein_coding''" by code_simp
  have v: "convert_gene_to_rna (Some ''protein_coding'') ''unknown'' = ''mRNA''"
    "convert_gene_to_rna (Some '' rRNA_gene '') ''unknown'' = ''rRNA''"
    "convert_gene_to_rna (Some ''intergenic'') ''unknown'' = ''unknown''"
    "convert_gene_to_rna (Some []) ''unknown'' = ''unknown''"
    by code_simp+
  from convert_gene_to_rna_lookup [of "''unknown''" "''protein_coding''" "''Protein_Coding''"] l
  have "convert_gene_to_rna (Some ''Protein_Coding'') ''unknown'' =
     convert_gene_to_rna (Some ''protein_coding'') ''unknown''"
    by blast
  with l v show ?thesis by blast
qed

text \<open>
  C4, as stated, fails in \<open>FDR_proportion_plotting.py\<close>: the label \<open>Protein_Coding\<close> is
  not the key \<open>protein_coding\<close>, the lookup returns it unchanged (neither \<open>mRNA\<close> nor
  \<open>unknown\<close>), and \<open>load_samples\<close> of that script drops the row that carries it.
\<close>

theorem gene_type_lookup_counterexample:
  "rna_type_FDR ''Protein_Coding'' = ''Protein_Coding'' \<and>
   rna_type_FDR ''protein_coding'' = ''mRNA'' \<and>
   rna_type_FDR ''trna'' = ''trna'' \<and>
   content good_file = Some \<lparr>columns = sample_columns,
       rows = [[Some ''chr1'', Some ''10'', Some ''Protein_Coding''],
               [Some ''chr1'', Some ''20'', Some ''tRNA''],
               [Some ''chr1'', Some ''30'', Some ''intergenic'']]\<rparr> \<and>
   load_samples_FDR good_only ''total'' =
     Inr [\<lparr>fdr_site = Some ''20'', fdr_rna_type = Some ''ncRNA'',
            fdr_sample = ''total_m6A_1_rep1'', fdr_group = ''total''\<rparr>,
          \<lparr>fdr_site = Some ''30'', fdr_rna_type = Some ''ncRNA'',
            fdr_sample = ''total_m6A_1_rep1'', fdr_group = ''total''\<rparr>]"
  by code_simp

section \<open>Facts about \<open>load_samples\<close>\<close>

lemma grouped_find:
  "grouped ft f \<longleftrightarrow> find (\<lambda>rule. rule_matches rule (stem (fname f)) ft) grouping_rules \<noteq> None"
  by (auto simp: grouped_def list_ex_iff find_None_iff)

lemma not_grouped_get_group_name:
  assumes "\<not> grouped ft f"
  shows "get_group_name (stem (fname f)) ft = Inl (skip_warning ft f)"
proof -
  from assms have "find (\<lambda>rule. rule_matches rule (stem (fname f)) ft) grouping_rules = None"
    unfolding grouped_find by blast
  then show ?thesis
    by (simp add: get_group_name_def first_rule_find skip_warning_def)
qed

lemma grouped_get_group_name:
  assumes "grouped ft f"
  shows "\<exists>g. get_group_name (stem (fname f)) ft = Inr g"
proof -
  from assms obtain r where
    "find (\<lambda>rule. rule_matches rule (stem (fname f)) ft) grouping_rules = Some r"
    unfolding grouped_find by blast
  then show ?thesis
    by (simp add: get_group_name_def first_rule_find)
qed

lemma load_file_skip:
  "\<not> grouped ft f \<Longrightarrow> load_file ft f st = Inr (fst st, snd st @ [skip_warning ft f])"
  by (simp add: load_file_def not_grouped_get_group_name)








section \<open>Properties of \<open>load_samples\<close>\<close>




section \<open>Facts about the column check\<close>

lemma missing_cols_set:
  "set (missing_cols mapping df) = {col \<in> set (map fst mapping). col \<notin> set (columns df)}"
  by (auto simp: missing_cols_def)

lemma missing_cols_empty:
  "missing_cols mapping df = [] \<longleftrightarrow> set (map fst mapping) \<subseteq> set (columns df)"
  by (auto simp: missing_cols_def filter_empty_conv)

lemma required_columns:
  "missing_cols column_mapping df = [col \<leftarrow> [''Sites'', ''Gene_Type'']. col \<notin> set (columns df)]"
  "missing_cols column_mapping_FDR df = [col \<leftarrow> [''Sites'', ''Gene_Type'']. col \<notin> set (columns df)]"
  by (simp_all add: missing_cols_def column_mapping_def column_mapping_FDR_def)

lemma load_files_append:
  "load_files ft (xs @ ys) st =
     (case load_files ft xs st of Inl e \<Rightarrow> Inl e | Inr st' \<Rightarrow> load_files ft ys st')"
  by (induction xs arbitrary: st) (auto split: sum.splits)

lemma load_file_missing:
  assumes "grouped ft f" and "content f = Some df" and "missing_cols column_mapping df \<noteq> []"
  shows "load_file ft f st = Inl (MissingColumns (fname f) (missing_cols column_mapping df))"
proof -
  from assms(1) obtain g where "get_group_name (stem (fname f)) ft = Inr g"
    using grouped_get_group_name by blast
  then show ?thesis using assms(2,3) by (simp add: load_file_def)
qed

lemma load_samples_first_missing:
  assumes "folder_exists dir" and "folder_is_dir dir"
    and "glob_suffix dir file_suffix = before @ f # after"
    and "load_files ft before ([], []) = Inr st"
    and "grouped ft f" and "content f = Some df" and "missing_cols column_mapping df \<noteq> []"
  shows "load_samples dir ft = Inl (MissingColumns (fname f) (missing_cols column_mapping df))"
  using assms(1-4) load_file_missing [OF assms(5-7), of st]
  by (simp add: load_samples_def Let_def load_files_append)

lemma load_files_ok_columns:
  "load_files ft fs st = Inr st' \<Longrightarrow> f \<in> set fs \<Longrightarrow> grouped ft f \<Longrightarrow>
   \<exists>d. content f = Some d \<and> missing_cols column_mapping d = []"
proof (induction fs arbitrary: st)
  case Nil
  then show ?case by simp
next
  case (Cons x xs)
  from Cons.prems(1) obtain st1 where
    step: "load_file ft x st = Inr st1" and rest: "load_files ft xs st1 = Inr st'"
    by (auto split: sum.splits)
  show ?case
  proof (cases "f = x")
    case True
    from Cons.prems(3) obtain g where "get_group_name (stem (fname f)) ft = Inr g"
      using grouped_get_group_name by blast
    then show ?thesis using step True
      by (auto simp: load_file_def split: option.splits if_splits)
  next
    case False
    with Cons.prems(2) have "f \<in> set xs" by simp
    from Cons.IH [OF rest this Cons.prems(3)] show ?thesis .
  qed
qed

lemma load_samples_ok_columns:
  assumes "load_samples dir ft = Inr (table, printed)"
    and "f \<in> set (glob_suffix dir file_suffix)" and "grouped ft f"
  shows "\<exists>d. content f = Some d \<and> missing_cols column_mapping d = []"
proof -
  from assms(1) obtain st' where "load_files ft (glob_suffix dir file_suffix) ([], []) = Inr st'"
    by (auto simp: load_samples_def Let_def split: if_splits sum.splits)
  from load_files_ok_columns [OF this assms(2,3)] show ?thesis .
qed

lemma grouped_content: "grouped ft (f\<lparr>content := c\<rparr>) = grouped ft f"
  by (simp add: grouped_def)

lemma load_file_skip_content:
  assumes "\<not> grouped ft f"
  shows "load_file ft (f\<lparr>content := c\<rparr>) st = load_file ft f st"
proof -
  from assms have "\<not> grouped ft (f\<lparr>content := c\<rparr>)" by (simp add: grouped_content)
  then show ?thesis using assms by (simp add: load_file_skip skip_warning_def)
qed

lemma load_files_FDR_append:
  "load_files_FDR g (xs @ ys) acc =
     (case load_files_FDR g xs acc of Inl e \<Rightarrow> Inl e | Inr acc' \<Rightarrow> load_files_FDR g ys acc')"
  by (induction xs arbitrary: acc) (auto split: sum.splits)

lemma load_samples_FDR_first_missing:
  assumes "folder_exists dir" and "folder_is_dir dir"
    and "glob_suffix dir file_suffix = before @ f # after"
    and "load_files_FDR g before [] = Inr acc"
    and "content f = Some df" and "missing_cols column_mapping_FDR df \<noteq> []"
  shows "load_samples_FDR dir g = Inl (MissingColumns (fname f) (missing_cols column_mapping_FDR df))"
  using assms by (simp add: load_samples_FDR_def Let_def load_files_FDR_append load_file_FDR_def)

lemma load_files_FDR_ok_columns:
  "load_files_FDR g fs acc = Inr acc' \<Longrightarrow> f \<in> set fs \<Longrightarrow>
   \<exists>d. content f = Some d \<and> missing_cols column_mapping_FDR d = []"
proof (induction fs arbitrary: acc)
  case Nil
  then show ?case by simp
next
  case (Cons x xs)
  from Cons.prems(1) obtain acc1 where
    step: "load_file_FDR g x acc = Inr acc1" and rest: "load_files_FDR g xs acc1 = Inr acc'"
    by (auto split: sum.splits)
  show ?case
  proof (cases "f = x")
    case True
    then show ?thesis using step
      by (auto simp: load_file_FDR_def split: option.splits if_splits)
  next
    case False
    with Cons.prems(2) have "f \<in> set xs" by simp
    from Cons.IH [OF rest this] show ?thesis .
  qed
qed

lemma load_samples_FDR_ok_columns:
  assumes "load_samples_FDR dir g = Inr table" and "f \<in> set (glob_suffix dir file_suffix)"
  shows "\<exists>d. content f = Some d \<and> missing_cols column_mapping_FDR d = []"
proof -
  from assms(1) obtain acc' where "load_files_FDR g (glob_suffix dir file_suffix) [] = Inr acc'"
    by (auto simp: load_samples_FDR_def Let_def split: if_splits sum.splits)
  from load_files_FDR_ok_columns [OF this assms(2)] show ?thesis .
qed

section \<open>Properties of the column check\<close>

text \<open>
  C9, as the code has it. In \<open>group_proportion_style.py\<close> the header is checked only
  after the file has been assigned a group and read. When the files before it load, a
  file that a grouping rule applies to, that is read, and whose header lacks \<open>Sites\<close> or
  \<open>Gene_Type\<close> makes \<open>load_samples\<close> raise the \<open>ValueError\<close> that names the file and the
  missing columns; so \<open>load_samples\<close> returns a table only when every file that a rule
  applies to has both columns. A file that no rule applies to is skipped whatever its
  header is. In \<open>FDR_proportion_plotting.py\<close>, which has no grouping, the same holds of
  every file of the folder.
\<close>

theorem missing_columns_fatal:
  "(folder_exists dir \<and> folder_is_dir dir \<and>
    glob_suffix dir file_suffix = before @ sample # after \<and>
    load_files folder_type before ([], []) = Inr st \<and> grouped folder_type sample \<and>
    content sample = Some df \<and> \<not> {''Sites'', ''Gene_Type''} \<subseteq> set (columns df) \<longrightarrow>
      load_samples dir folder_type =
        Inl (MissingColumns (fname sample) [col \<leftarrow> [''Sites'', ''Gene_Type'']. col \<notin> set (columns df)])) \<and>
   (load_samples dir folder_type = Inr (table, printed) \<and>
    f \<in> set (glob_suffix dir file_suffix) \<and> grouped folder_type f \<longrightarrow>
      (\<exists>d. content f = Some d \<and> {''Sites'', ''Gene_Type''} \<subseteq> set (columns d))) \<and>
   (\<not> grouped folder_type sample \<longrightarrow>
      load_file folder_type (sample\<lparr>content := c\<rparr>) st0 = load_file folder_type sample st0) \<and>
   (folder_exists dir \<and> folder_is_dir dir \<and>
    glob_suffix dir file_suffix = before @ sample # after \<and>
    load_files_FDR group_name before [] = Inr acc \<and>
    content sample = Some df \<and> \<not> {''Sites'', ''Gene_Type''} \<subseteq> set (columns df) \<longrightarrow>
      load_samples_FDR dir group_name =
        Inl (MissingColumns (fname sample) [col \<leftarrow> [''Sites'', ''Gene_Type'']. col \<notin> set (columns df)])) \<and>
   (load_samples_FDR dir group_name = Inr fdr_table \<and> f \<in> set (glob_suffix dir file_suffix) \<longrightarrow>
      (\<exists>d. content f = Some d \<and> {''Sites'', ''Gene_Type''} \<subseteq> set (columns d)))"
proof -
  have req: "missing_cols column_mapping d = [] \<longleftrightarrow> {''Sites'', ''Gene_Type''} \<subseteq> set (columns d)"
    "missing_cols column_mapping_FDR d = [] \<longleftrightarrow> {''Sites'', ''Gene_Type''} \<subseteq> set (columns d)" for d
    by (simp_all add: missing_cols_empty column_mapping_def column_mapping_FDR_def)
  have a: "load_samples dir folder_type =
        Inl (MissingColumns (fname sample) [col \<leftarrow> [''Sites'', ''Gene_Type'']. col \<notin> set (columns df)])"
    if "folder_exists dir" "folder_is_dir dir" "glob_suffix dir file_suffix = before @ sample # after"
      "load_files folder_type before ([], []) = Inr st" "grouped folder_type sample"
      "content sample = Some df" "\<not> {''Sites'', ''Gene_Type''} \<subseteq> set (columns df)"
  proof -
    have m: "missing_cols column_mapping df \<noteq> []" using that(7) req(1) [of df] by blast
    from load_samples_first_missing [OF that(1-6) m] show ?thesis
      by (simp only: required_columns(1))
  qed
  have b: "\<exists>d. content f = Some d \<and> {''Sites'', ''Gene_Type''} \<subseteq> set (columns d)"
    if "load_samples dir folder_type = Inr (table, printed)"
      "f \<in> set (glob_suffix dir file_suffix)" "grouped folder_type f"
    using load_samples_ok_columns [OF that] req(1) by blast
  have c: "load_file folder_type (sample\<lparr>content := c\<rparr>) st0 = load_file folder_type sample st0"
    if "\<not> grouped folder_type sample"
    using load_file_skip_content [OF that] .
  have d: "load_samples_FDR dir group_name =
        Inl (MissingColumns (fname sample) [col \<leftarrow> [''Sites'', ''Gene_Type'']. col \<notin> set (columns df)])"
    if "folder_exists dir" "folder_is_dir dir" "glob_suffix dir file_suffix = before @ sample # after"
      "load_files_FDR group_name before [] = Inr acc"
      "content sample = Some df" "\<not> {''Sites'', ''Gene_Type''} \<subseteq> set (columns df)"
  proof -
    have m: "missing_cols column_mapping_FDR df \<noteq> []" using that(6) req(2) [of df] by blast
    from load_samples_FDR_first_missing [OF that(1-5) m] show ?thesis
      by (simp only: required_columns(2))
  qed
  have e: "\<exists>d. content f = Some d \<and> {''Sites'', ''Gene_Type''} \<subseteq> set (columns d)"
    if "load_samples_FDR dir group_name = Inr fdr_table" "f \<in> set (glob_suffix dir file_suffix)"
    using load_samples_FDR_ok_columns [OF that] req(2) by blast
  from a b c d e show ?thesis by blast
qed

theorem missing_columns_fatal_witness:
  "folder_exists good_and_headless \<and> folder_is_dir good_and_headless \<and>
   glob_suffix good_and_headless file_suffix = [good_file] @ headless_file # [] \<and>
   load_files ''total'' [good_file] ([], []) =
     Inr ([(''OD600=0.3'',
            [[\<lparr>row_site = Some ''10'', row_gene_type = Some ''Protein_Coding'',
                row_rna_type = ''mRNA'', row_group = ''OD600=0.3''\<rparr>,
              \<lparr>row_site = Some ''20'', row_gene_type = Some ''tRNA'',
                row_rna_type = ''ncRNA'', row_group = ''OD600=0.3''\<rparr>]])], []) \<and>
   grouped ''total'' headless_file \<and>
   content headless_file = Some \<lparr>columns = [''Chr'', ''Sites''], rows = [[Some ''chr1'', Some ''10'']]\<rparr> \<and>
   \<not> {''Sites'', ''Gene_Type''} \<subseteq> set [''Chr'', ''Sites''] \<and>
   load_samples good_and_headless ''total'' = Inl (MissingColumns ''m6A_2_rep1.csv'' [''Gene_Type''])"
proof -
  have h: "folder_exists good_and_headless" "folder_is_dir good_and_headless"
    "glob_suffix good_and_headless file_suffix = [good_file] @ headless_file # []"
    "load_files ''total'' [good_file] ([], []) =
     Inr ([(''OD600=0.3'',
            [[\<lparr>row_site = Some ''10'', row_gene_type = Some ''Protein_Coding'',
                row_rna_type = ''mRNA'', row_group = ''OD600=0.3''\<rparr>,
              \<lparr>row_site = Some ''20'', row_gene_type = Some ''tRNA'',
                row_rna_type = ''ncRNA'', row_group = ''OD600=0.3''\<rparr>]])], [])"
    "grouped ''total'' headless_file"
    "content headless_file = Some \<lparr>columns = [''Chr'', ''Sites''], rows = [[Some ''chr1'', Some ''10'']]\<rparr>"
    by code_simp+
  have n: "\<not> {''Sites'', ''Gene_Type''} \<subseteq> set [''Chr'', ''Sites'']" by simp
  have r: "load_samples good_and_headless ''total'' =
      Inl (MissingColumns (fname headless_file)
        [col \<leftarrow> [''Sites'', ''Gene_Type'']. col \<notin> set (columns \<lparr>columns = [''Chr'', ''Sites''], rows = [[Some ''chr1'', Some ''10'']]\<rparr>)])"
    using missing_columns_fatal [where dir = good_and_headless and before = "[good_file]"
        and sample = headless_file and after = "[]" and folder_type = "''total''"
        and df = "\<lparr>columns = [''Chr'', ''Sites''], rows = [[Some ''chr1'', Some ''10'']]\<rparr>"]
      h n
    by simp
  have "load_samples good_and_headless ''total'' = Inl (MissingColumns ''m6A_2_rep1.csv'' [''Gene_Type''])"
    using r by (simp add: headless_file_def)
  with h n show ?thesis by blast
qed

text \<open>
  C9, as stated, fails in \<open>group_proportion_style.py\<close>: a file without the \<open>Gene_Type\<close>
  column that no rule applies to is skipped with the warning about its group, and
  \<open>load_samples\<close> returns the table of the other file.
\<close>

theorem missing_columns_counterexample:
  "glob_suffix stray_and_good file_suffix = [stray_file, good_file] \<and>
   content stray_file = Some \<lparr>columns = [''Chr'', ''Sites''], rows = [[Some ''chr1'', Some ''10'']]\<rparr> \<and>
   ''Gene_Type'' \<notin> set [''Chr'', ''Sites''] \<and>
   load_samples stray_and_good ''total'' =
     Inr ([\<lparr>row_site = Some ''10'', row_gene_type = Some ''Protein_Coding'',
             row_rna_type = ''mRNA'', row_group = ''OD600=0.3''\<rparr>,
           \<lparr>row_site = Some ''20'', row_gene_type = Some ''tRNA'',
             row_rna_type = ''ncRNA'', row_group = ''OD600=0.3''\<rparr>],
          [NoGroupMatch ''control_rep1'' ''total''])"
  by code_simp

section \<open>Facts about the normalizers\<close>

lemma round_even_error: "\<bar>of_int (round_even y) - y\<bar> \<le> 1 / 2"
proof -
  have "of_int \<lfloor>y\<rfloor> \<le> y" "y < of_int \<lfloor>y\<rfloor> + 1" by linarith+
  then show ?thesis by (auto simp: round_even_def Let_def)
qed

lemma float64_error: "\<bar>float64 x - x\<bar> \<le> \<bar>x\<bar> / 2 ^ 53"
proof (cases "x = 0")
  case True
  then show ?thesis by (simp add: float64_def)
next
  case False
  define E where "E = \<lfloor>log 2 \<bar>x\<bar>\<rfloor>"
  define ulp :: real where "ulp = 2 powr (of_int (E - 52))"
  have ulp_pos: "0 < ulp" by (simp add: ulp_def)
  have "of_int E \<le> log 2 \<bar>x\<bar>" by (simp add: E_def)
  then have "2 powr (of_int E) \<le> 2 powr (log 2 \<bar>x\<bar>)" by (simp add: powr_mono)
  then have low: "2 powr (of_int E) \<le> \<bar>x\<bar>" using False by simp
  have ulp_eq: "ulp = 2 powr (of_int E) / 2 ^ 52"
    unfolding ulp_def by (simp add: powr_diff)
  have f: "float64 x = of_int (round_even (x / ulp)) * ulp"
    using False by (simp add: float64_def Let_def ulp_def E_def)
  have "\<bar>float64 x - x\<bar> = \<bar>of_int (round_even (x / ulp)) - x / ulp\<bar> * ulp"
  proof -
    have "float64 x - x = (of_int (round_even (x / ulp)) - x / ulp) * ulp"
      using ulp_pos by (simp add: f field_simps)
    then show ?thesis using ulp_pos by (simp add: abs_mult)
  qed
  also have "\<dots> \<le> (1 / 2) * ulp"
    using round_even_error [of "x / ulp"] ulp_pos by (intro mult_right_mono) simp_all
  also have "\<dots> = 2 powr (of_int E) / 2 ^ 53" by (simp add: ulp_eq)
  also have "\<dots> \<le> \<bar>x\<bar> / 2 ^ 53" using low by (simp add: divide_right_mono)
  finally show ?thesis .
qed

lemma float64_exact:
  assumes "2 powr (of_int E) \<le> \<bar>x\<bar>" and "\<bar>x\<bar> < 2 powr (of_int (E + 1))"
    and "x / 2 powr (of_int (E - 52)) = of_int m"
  shows "float64 x = x"
proof -
  have x0: "x \<noteq> 0" using assms(1) by (smt (verit) powr_gt_zero)
  have "of_int E \<le> log 2 \<bar>x\<bar>" using assms(1) x0 by (simp add: le_log_iff)
  moreover have "log 2 \<bar>x\<bar> < of_int (E + 1)" using assms(2) x0 by (simp add: log_less_iff)
  ultimately have E: "\<lfloor>log 2 \<bar>x\<bar>\<rfloor> = E" by linarith
  have r: "round_even (of_int m) = m" by (simp add: round_even_def)
  have "float64 x =
      of_int (round_even (x / 2 powr (of_int (E - 52)))) * 2 powr (of_int (E - 52))"
    using x0 unfolding float64_def Let_def E by (simp only: if_False)
  then have "float64 x = of_int m * 2 powr (of_int (E - 52))"
    by (simp only: assms(3) r)
  also have "\<dots> = x" using assms(3) [symmetric] by simp
  finally show ?thesis .
qed

lemma percent_error:
  assumes "n \<noteq> 0"
  shows "\<bar>percent c n - 100 * (real c / real n)\<bar> \<le> (real c / real n) / 2 ^ 44"
proof -
  define x where "x = real c / real n"
  define u :: real where "u = 1 / 2 ^ 53"
  have x0: "0 \<le> x" by (simp add: x_def)
  have u0: "0 \<le> u" "u \<le> 1" by (simp_all add: u_def)
  have e1: "\<bar>float64 x - x\<bar> \<le> x * u"
    using float64_error [of x] x0 by (simp add: u_def)
  define y where "y = float64 x * 100"
  have y1: "\<bar>y - 100 * x\<bar> \<le> 100 * x * u"
    using e1 by (simp add: y_def)
  then have y2: "\<bar>y\<bar> \<le> 100 * x + 100 * x * u" using x0 by linarith
  have e2: "\<bar>float64 y - y\<bar> \<le> \<bar>y\<bar> * u"
    using float64_error [of y] by (simp add: u_def)
  have "\<bar>y\<bar> * u \<le> (100 * x + 100 * x * u) * u"
    using y2 u0 by (intro mult_right_mono) simp_all
  also have "\<dots> \<le> (100 * x + 100 * x * 1) * u"
    using x0 u0 by (intro mult_right_mono add_left_mono mult_left_mono) simp_all
  finally have e3: "\<bar>float64 y - y\<bar> \<le> 200 * x * u" using e2 by simp
  have "\<bar>float64 y - 100 * x\<bar> \<le> 300 * x * u" using e3 y1 by linarith
  also have "\<dots> \<le> x / 2 ^ 44"
  proof -
    have "300 * u \<le> 1 / 2 ^ 44" by (simp add: u_def)
    then have "x * (300 * u) \<le> x * (1 / 2 ^ 44)" using x0 by (intro mult_left_mono)
    moreover have "300 * x * u = x * (300 * u)" by (simp only: mult.assoc mult.left_commute mult.commute)
    moreover have "x / 2 ^ 44 = x * (1 / 2 ^ 44)" by (simp only: times_divide_eq_right mult_1_right)
    ultimately show ?thesis by (simp only:)
  qed
  finally show ?thesis
    by (simp add: percent_def float_mul_def true_div_def x_def y_def)
qed

lemma sum_list_real_div:
  "(\<Sum>c\<leftarrow>cs. real c / T) = real (sum_list cs) / T"
  by (induction cs) (simp_all add: add_divide_distrib)

lemma sum_list_div_const: "(\<Sum>x\<leftarrow>xs. f x / k) = (\<Sum>x\<leftarrow>xs. f x) / (k::real)"
  by (induction xs) (simp_all add: add_divide_distrib)

lemma percent_sum:
  assumes "sum_list cs \<noteq> 0"
  shows "\<bar>(\<Sum>c\<leftarrow>cs. percent c (sum_list cs)) - 100\<bar> \<le> 1 / 100"
proof -
  let ?T = "sum_list cs"
  have one: "(\<Sum>c\<leftarrow>cs. real c / real ?T) = 1"
    using assms by (simp add: sum_list_real_div)
  have "(\<Sum>c\<leftarrow>cs. 100 * (real c / real ?T)) = 100 * (\<Sum>c\<leftarrow>cs. real c / real ?T)"
    by (rule sum_list_const_mult)
  then have h: "(\<Sum>c\<leftarrow>cs. 100 * (real c / real ?T)) = 100"
    by (simp only: one mult_1_right)
  have "(\<Sum>c\<leftarrow>cs. percent c ?T) - 100 =
        (\<Sum>c\<leftarrow>cs. percent c ?T - 100 * (real c / real ?T))"
    by (simp only: sum_list_subtractf h)
  also have "\<bar>\<dots>\<bar> \<le> (\<Sum>c\<leftarrow>cs. \<bar>percent c ?T - 100 * (real c / real ?T)\<bar>)"
    using sum_list_abs [of "map (\<lambda>c. percent c ?T - 100 * (real c / real ?T)) cs"]
    by (simp add: comp_def)
  also have "\<dots> \<le> (\<Sum>c\<leftarrow>cs. (real c / real ?T) / 2 ^ 44)"
    by (intro sum_list_mono percent_error [OF assms])
  also have "\<dots> = (\<Sum>c\<leftarrow>cs. real c / real ?T) / 2 ^ 44"
    by (rule sum_list_div_const)
  also have "\<dots> = 1 / 2 ^ 44"
    by (simp only: one)
  also have "\<dots> \<le> 1 / 100" by simp
  finally show ?thesis .
qed

lemma percent_zero: "percent 0 n = 0"
  by (simp add: percent_def true_div_def float_mul_def float64_def)

lemma sum_list_indicator:
  "distinct ds \<Longrightarrow> (\<Sum>d\<leftarrow>ds. if a = d then 1 else 0) = (if a \<in> set ds then 1 else (0::nat))"
  by (induction ds) auto

lemma partition_count:
  assumes "distinct ds" and "\<forall>r \<in> set xs. P r \<longrightarrow> f r \<in> set ds"
  shows "(\<Sum>d\<leftarrow>ds. length [r \<leftarrow> xs. P r \<and> f r = d]) = length [r \<leftarrow> xs. P r]"
  using assms(2)
proof (induction xs)
  case Nil
  then show ?case by simp
next
  case (Cons x xs)
  then have IH: "(\<Sum>d\<leftarrow>ds. length [r \<leftarrow> xs. P r \<and> f r = d]) = length [r \<leftarrow> xs. P r]"
    by simp
  show ?case
  proof (cases "P x")
    case True
    with Cons.prems have mem: "f x \<in> set ds" by simp
    have "(\<Sum>d\<leftarrow>ds. length [r \<leftarrow> x # xs. P r \<and> f r = d]) =
          (\<Sum>d\<leftarrow>ds. (if f x = d then 1 else 0) + length [r \<leftarrow> xs. P r \<and> f r = d])"
      using True by (intro arg_cong [where f = sum_list] map_cong) auto
    also have "\<dots> = (\<Sum>d\<leftarrow>ds. if f x = d then 1 else 0) + (\<Sum>d\<leftarrow>ds. length [r \<leftarrow> xs. P r \<and> f r = d])"
      by (simp add: sum_list_addf)
    also have "\<dots> = 1 + length [r \<leftarrow> xs. P r]"
      using mem by (simp add: sum_list_indicator [OF assms(1)] IH)
    finally show ?thesis using True by simp
  next
    case False
    then show ?thesis using IH by simp
  qed
qed

lemma count_key: "length [r \<leftarrow> xs. group_key r = (g, t)] = rows_of xs g t"
  by (simp add: group_key_def rows_of_def)

lemma map_of_table: "map_of (map (\<lambda>k. (k, F k)) ks) k = (if k \<in> set ks then Some (F k) else None)"
  by (induction ks) auto

lemma total_counts_rows:
  "total_counts (group_counts xs) g = length [r \<leftarrow> xs. row_group r = g]"
proof -
  let ?ks = "remdups (map group_key xs)"
  have "total_counts (group_counts xs) g =
        (\<Sum>k\<leftarrow>[k \<leftarrow> ?ks. fst k = g]. length [r \<leftarrow> xs. group_key r = k])"
    by (simp add: total_counts_def group_counts_def filter_map comp_def)
  also have "\<dots> = (\<Sum>k\<leftarrow>[k \<leftarrow> ?ks. fst k = g]. length [r \<leftarrow> xs. row_group r = g \<and> group_key r = k])"
    by (intro arg_cong [where f = sum_list] map_cong refl filter_cong arg_cong [where f = length])
       (auto simp: group_key_def)
  also have "\<dots> = length [r \<leftarrow> xs. row_group r = g]"
    by (rule partition_count) (auto simp: group_key_def)
  finally show ?thesis .
qed

lemma rows_of_sum:
  "(\<Sum>t\<leftarrow>pivot_columns xs. rows_of xs g t) = length [r \<leftarrow> xs. row_group r = g]"
  unfolding rows_of_def
  by (rule partition_count)
     (auto simp: pivot_columns_def group_counts_def comp_def group_key_def intro!: image_eqI)

lemma pivot_data_percent:
  "pivot_data xs g t = percent (rows_of xs g t) (total_counts (group_counts xs) g)"
proof (cases "(g, t) \<in> set (remdups (map group_key xs))")
  case True
  have "map_of (percentage (group_counts xs)) (g, t) =
        Some (percent (rows_of xs g t) (total_counts (group_counts xs) g))"
  proof -
    have "percentage (group_counts xs) =
          map (\<lambda>k. (k, percent (length [r \<leftarrow> xs. group_key r = k]) (total_counts (group_counts xs) (fst k))))
            (remdups (map group_key xs))"
      by (simp add: percentage_def percent_def comp_def) (simp add: group_counts_def comp_def)
    then show ?thesis using True by (simp only: map_of_table count_key if_True fst_conv)
  qed
  then show ?thesis by (simp add: pivot_data_def)
next
  case False
  have "map_of (percentage (group_counts xs)) (g, t) = None"
    using False by (auto simp: map_of_eq_None_iff percentage_def group_counts_def comp_def image_iff)
  moreover have "rows_of xs g t = 0"
    using False by (auto simp: rows_of_def group_key_def filter_empty_conv image_iff)
  ultimately show ?thesis by (simp add: pivot_data_def percent_zero)
qed

lemma pivot_sum:
  assumes "g \<in> set (pivot_index xs)"
  shows "total_counts (group_counts xs) g \<noteq> 0 \<and>
         \<bar>(\<Sum>t\<leftarrow>pivot_columns xs. pivot_data xs g t) - 100\<bar> \<le> 1 / 100"
proof -
  let ?T = "total_counts (group_counts xs) g"
  from assms obtain r where "r \<in> set xs" "row_group r = g"
    by (auto simp: pivot_index_def group_counts_def comp_def group_key_def)
  then have "[r \<leftarrow> xs. row_group r = g] \<noteq> []" by (auto simp: filter_empty_conv)
  then have T0: "?T \<noteq> 0" by (simp add: total_counts_rows)
  have T: "sum_list (map (rows_of xs g) (pivot_columns xs)) = ?T"
    by (simp add: rows_of_sum total_counts_rows)
  have "(\<Sum>t\<leftarrow>pivot_columns xs. pivot_data xs g t) =
        (\<Sum>c\<leftarrow>map (rows_of xs g) (pivot_columns xs). percent c ?T)"
    by (simp add: pivot_data_percent comp_def)
  also have "\<dots> = (\<Sum>c\<leftarrow>map (rows_of xs g) (pivot_columns xs).
                      percent c (sum_list (map (rows_of xs g) (pivot_columns xs))))"
    by (simp only: T)
  finally show ?thesis
    using percent_sum [of "map (rows_of xs g) (pivot_columns xs)"] T0 T by simp
qed

lemma normalized_nth:
  assumes "idx < length region_order"
  shows "normalized L layer ! idx =
           (if total_at L idx = 0 then 0 else percent (layer L ! idx) (total_at L idx))"
  using assms by (simp add: normalized_def Let_def percent_def max_height_def)

lemma percent_float64: "percent c n = float64 (float64 (real c / real n) * 100)"
  by (simp add: percent_def float_mul_def true_div_def)

lemma percent_close:
  assumes "n \<noteq> 0" and "c \<le> n"
  shows "\<bar>percent c n - 100 * (real c / real n)\<bar> \<le> 1 / 2 ^ 44"
proof -
  have "real c / real n \<le> 1" using assms by simp
  then have "(real c / real n) / 2 ^ 44 \<le> 1 / 2 ^ 44" by (simp add: divide_right_mono)
  with percent_error [OF assms(1), of c] show ?thesis by linarith
qed

lemma layer_le_total: "layer \<in> set layer_names \<Longrightarrow> layer L ! idx \<le> total_at L idx"
  by (auto simp: layer_names_def total_at_def)

lemma normalized_sum:
  assumes "idx < length region_order" and "total_at L idx \<noteq> 0"
  shows "\<bar>(\<Sum>layer\<leftarrow>layer_names. normalized L layer ! idx) - 100\<bar> \<le> 1 / 100"
proof -
  let ?cs = "map (\<lambda>l. l L ! idx) layer_names"
  have "normalized L layer ! idx = percent (layer L ! idx) (total_at L idx)" for layer
    using assms by (simp add: normalized_nth)
  then have "(\<Sum>layer\<leftarrow>layer_names. normalized L layer ! idx) =
        (\<Sum>layer\<leftarrow>layer_names. percent (layer L ! idx) (total_at L idx))"
    by simp
  also have "\<dots> = (\<Sum>c\<leftarrow>?cs. percent c (sum_list ?cs))"
    by (simp add: comp_def total_at_def)
  finally show ?thesis using percent_sum [of ?cs] assms(2) by (simp add: total_at_def)
qed

lemma float64_half: "float64 (1 / 2) = 1 / 2"
  by (rule float64_exact [where E = "-1" and m = "2 ^ 52"]) (simp_all add: powr_minus divide_simps)

lemma float64_fifty: "float64 50 = 50"
  by (rule float64_exact [where E = 5 and m = "25 * 2 ^ 48"]) (simp_all add: powr_minus divide_simps)

section \<open>Properties of the normalizers\<close>

text \<open>
  C6. Each percentage is the count divided by the total of its grouping key, times 100,
  both operations in binary64; it differs from the exact \<open>100 * count / total\<close> by at
  most \<open>2\<^sup>-\<^sup>4\<^sup>4\<close>. In the region variant the key is the position in
  \<open>region_order\<close>: a total of zero gives the percentage 0 for every layer, and otherwise
  the five percentages sum to 100 within 0.01. In \<open>plot_rna_distribution\<close> the key is
  the group: every group of the table has a total that is not zero, and its percentages
  over the RNA types (0 where a pair does not occur) sum to 100 within 0.01.
\<close>

theorem normalizer_percentages:
  "(idx < length region_order \<longrightarrow>
      (total_at L idx = 0 \<longrightarrow> (\<forall>layer \<in> set layer_names. normalized L layer ! idx = 0)) \<and>
      (total_at L idx \<noteq> 0 \<longrightarrow>
         (\<forall>layer \<in> set layer_names.
            normalized L layer ! idx =
              float64 (float64 (real (layer L ! idx) / real (total_at L idx)) * 100) \<and>
            \<bar>normalized L layer ! idx - 100 * (real (layer L ! idx) / real (total_at L idx))\<bar>
              \<le> 1 / 2 ^ 44) \<and>
         \<bar>(\<Sum>layer\<leftarrow>layer_names. normalized L layer ! idx) - 100\<bar> \<le> 1 / 100)) \<and>
   (g \<in> set (pivot_index data) \<longrightarrow>
      total_counts (group_counts data) g \<noteq> 0 \<and>
      (\<forall>t. pivot_data data g t =
             float64 (float64 (real (rows_of data g t) / real (total_counts (group_counts data) g)) * 100)) \<and>
      \<bar>(\<Sum>t\<leftarrow>pivot_columns data. pivot_data data g t) - 100\<bar> \<le> 1 / 100)"
proof -
  have a: "normalized L layer ! idx = 0"
    if "idx < length region_order" "total_at L idx = 0" for layer
    using that by (simp add: normalized_nth)
  have b: "normalized L layer ! idx =
              float64 (float64 (real (layer L ! idx) / real (total_at L idx)) * 100) \<and>
            \<bar>normalized L layer ! idx - 100 * (real (layer L ! idx) / real (total_at L idx))\<bar>
              \<le> 1 / 2 ^ 44"
    if "idx < length region_order" "total_at L idx \<noteq> 0" "layer \<in> set layer_names" for layer
    using that percent_close [OF that(2) layer_le_total [OF that(3)]]
    by (simp add: normalized_nth percent_float64)
  note c = normalized_sum [of idx L]
  have d: "pivot_data data g t =
             float64 (float64 (real (rows_of data g t) / real (total_counts (group_counts data) g)) * 100)"
    for t
    by (simp add: pivot_data_percent percent_float64)
  note e = pivot_sum [of g data]
  from a b c d e show ?thesis by blast
qed

theorem normalizer_percentages_witness:
  "(0::nat) < length region_order \<and> total_at example_layers 0 = 4 \<and>
   normalized example_layers shared ! 0 = 50 \<and>
   \<bar>(\<Sum>layer\<leftarrow>layer_names. normalized example_layers layer ! 0) - 100\<bar> \<le> 1 / 100 \<and>
   (1::nat) < length region_order \<and> total_at example_layers 1 = 0 \<and>
   normalized example_layers shared ! 1 = 0 \<and>
   ''OD600=1'' \<in> set (pivot_index example_data) \<and>
   pivot_data example_data ''OD600=1'' ''mRNA'' = 50 \<and>
   \<bar>(\<Sum>t\<leftarrow>pivot_columns example_data. pivot_data example_data ''OD600=1'' t) - 100\<bar> \<le> 1 / 100"
proof -
  have i: "(0::nat) < length region_order" "(1::nat) < length region_order"
    by (simp_all add: region_order_def)
  have t: "total_at example_layers 0 = 4" "total_at example_layers 1 = 0"
    by code_simp+
  have s: "shared \<in> set layer_names" "shared example_layers ! 0 = 2"
    by (simp_all add: layer_names_def example_layers_def)
  have g: "''OD600=1'' \<in> set (pivot_index example_data)"
    by code_simp
  have r: "rows_of example_data ''OD600=1'' ''mRNA'' = 1"
    "total_counts (group_counts example_data) ''OD600=1'' = 2"
    by code_simp+
  note n0 = normalizer_percentages [of 0 example_layers "''OD600=1''" example_data]
  note n1 = normalizer_percentages [of 1 example_layers "''OD600=1''" example_data]
  have "normalized example_layers shared ! 0 = float64 (float64 (real 2 / real 4) * 100)"
    using n0 i(1) t(1) s by (metis zero_neq_numeral)
  then have v0: "normalized example_layers shared ! 0 = 50"
    by (simp add: float64_half float64_fifty)
  have s0: "\<bar>(\<Sum>layer\<leftarrow>layer_names. normalized example_layers layer ! 0) - 100\<bar> \<le> 1 / 100"
    using n0 i(1) t(1) by simp
  have v1: "normalized example_layers shared ! 1 = 0"
    using n1 i(2) t(2) s(1) by blast
  have "pivot_data example_data ''OD600=1'' ''mRNA'' = float64 (float64 (real 1 / real 2) * 100)"
    using n0 g r by metis
  then have p: "pivot_data example_data ''OD600=1'' ''mRNA'' = 50"
    by (simp add: float64_half float64_fifty)
  have ps: "\<bar>(\<Sum>t\<leftarrow>pivot_columns example_data. pivot_data example_data ''OD600=1'' t) - 100\<bar> \<le> 1 / 100"
    using n0 g by blast
  from i t v0 s0 v1 g p ps show ?thesis by blast
qed

end
